theory Spec2Isabelle
  imports Main
begin

section \<open>Data model\<close>

text \<open>
  \<^verbatim>\<open>models.Image\<close>, with the fields the route handlers and their tests read and write.
  Go's \<^verbatim>\<open>int\<close> identifiers are integers (the 64-bit range is enforced where a value
  enters, in \<open>Atoi\<close>); a \<^verbatim>\<open>time.Time\<close> is an integer instant.
\<close>

record Image =
  ID :: int
  BackedUpAt :: int
  Anon :: string
  Ready :: bool
  CreatedAt :: int
  UpdatedAt :: int

text \<open>
  \<^verbatim>\<open>models.Instance\<close>. Record fields share one name space, so the fields carry the
  struct's name in front: \<^verbatim>\<open>Instance.ID\<close> is \<open>Instance_ID\<close>.
\<close>

record Instance =
  Instance_ID :: int
  Instance_ImageID :: int
  Instance_Port :: int
  Instance_CreatedAt :: int
  Instance_UpdatedAt :: int

text \<open>\<^verbatim>\<open>routes.ErrorSource\<close> and \<^verbatim>\<open>routes.APIError\<close>.\<close>

record ErrorSource =
  Pointer :: string
  Parameter :: string

record APIError =
  APIError_ID :: string
  Status :: string
  Code :: string
  Title :: string
  Detail :: string
  Source :: ErrorSource

definition noSource :: ErrorSource where
  "noSource = \<lparr>Pointer = [], Parameter = []\<rparr>"

definition internalServerError :: APIError where
  "internalServerError =
     \<lparr>APIError_ID = ''internal_server_error'', Status = ''500'',
      Code = ''internal_server_error'', Title = ''Internal Server Error'',
      Detail = ''Something went wrong :('', Source = noSource\<rparr>"

definition notFoundError :: APIError where
  "notFoundError =
     \<lparr>APIError_ID = ''resource_not_found'', Status = ''404'',
      Code = ''resource_not_found'', Title = ''Resource Not Found'',
      Detail = ''The resource you requested could not be found'', Source = noSource\<rparr>"

definition unauthorizedError :: APIError where
  "unauthorizedError =
     \<lparr>APIError_ID = ''unauthorized'', Status = ''401'',
      Code = ''unauthorized'', Title = ''Unauthorized'',
      Detail = ''You do not have permission to view this resource'', Source = noSource\<rparr>"

definition imageNotFoundError :: APIError where
  "imageNotFoundError =
     \<lparr>APIError_ID = ''resource_not_found'', Status = ''404'',
      Code = ''resource_not_found'', Title = ''Image Not Found'',
      Detail = ''The image you specified could not be found'', Source = noSource\<rparr>"

definition unreadyImageError :: APIError where
  "unreadyImageError =
     \<lparr>APIError_ID = ''unprocessable_entity'', Status = ''422'',
      Code = ''unprocessable_entity'', Title = ''Image Not Ready'',
      Detail = ''The specified image is not ready to be used'',
      Source = \<lparr>Pointer = [], Parameter = ''image_id''\<rparr>\<rparr>"

definition cannotDeleteImageWithInstancesError :: APIError where
  "cannotDeleteImageWithInstancesError =
     \<lparr>APIError_ID = ''unprocessable_entity'', Status = ''422'',
      Code = ''unprocessable_entity'', Title = ''Image Has Instances'',
      Detail = ''Cannot delete an image that has instances'', Source = noSource\<rparr>"

definition invalidJSONError :: APIError where
  "invalidJSONError =
     \<lparr>APIError_ID = ''bad_request'', Status = ''400'',
      Code = ''bad_request'', Title = ''Invalid JSON'',
      Detail = ''Your JSON is malformed'', Source = noSource\<rparr>"

text \<open>\<^verbatim>\<open>createImageRequest\<close> of \<^verbatim>\<open>routes/images.go\<close>: one field, \<^verbatim>\<open>BackedUpAt\<close>.\<close>

datatype createImageRequest = createImageRequest (req_BackedUpAt: int)

section \<open>The HTTP response writer\<close>

text \<open>
  What the handlers write. A \<^verbatim>\<open>http.ResponseWriter\<close> keeps the first status code it
  is given (a later \<^verbatim>\<open>WriteHeader\<close> is superfluous and ignored) and takes 200 when
  a body is written before any status.
\<close>

datatype payload =
    Text string
  | ImageJSON Image
  | ImageListJSON "Image list"
  | InstanceJSON Instance
  | InstanceListJSON "Instance list"
  | ErrorJSON APIError

record ResponseWriter =
  status :: "nat option"
  written :: "payload list"

definition NewRecorder :: ResponseWriter where
  "NewRecorder = \<lparr>status = None, written = []\<rparr>"

definition WriteHeader :: "nat \<Rightarrow> ResponseWriter \<Rightarrow> ResponseWriter" where
  "WriteHeader c w = (if status w = None then w\<lparr>status := Some c\<rparr> else w)"

definition Write :: "payload \<Rightarrow> ResponseWriter \<Rightarrow> ResponseWriter" where
  "Write p w = (WriteHeader 200 w)\<lparr>written := written w @ [p]\<rparr>"

text \<open>The status a client sees (\<^verbatim>\<open>recorder.Code\<close> in the tests).\<close>

definition resp_code :: "ResponseWriter \<Rightarrow> nat" where
  "resp_code w = (case status w of None \<Rightarrow> 200 | Some c \<Rightarrow> c)"

text \<open>The status codes of \<^verbatim>\<open>net/http\<close> that the handlers name.\<close>

definition StatusOK :: nat where "StatusOK = 200"
definition StatusCreated :: nat where "StatusCreated = 201"
definition StatusNoContent :: nat where "StatusNoContent = 204"
definition StatusBadRequest :: nat where "StatusBadRequest = 400"
definition StatusUnauthorized :: nat where "StatusUnauthorized = 401"
definition StatusNotFound :: nat where "StatusNotFound = 404"
definition StatusConflict :: nat where "StatusConflict = 409"
definition StatusUnprocessableEntity :: nat where "StatusUnprocessableEntity = 422"
definition StatusInternalServerError :: nat where "StatusInternalServerError = 500"

text \<open>\<^verbatim>\<open>http.Error(w, msg, code)\<close>: the status, then the message and a newline.\<close>

definition http_Error :: "ResponseWriter \<Rightarrow> string \<Rightarrow> nat \<Rightarrow> ResponseWriter" where
  "http_Error w msg c = Write (Text (msg @ [CHR 0x0A])) (WriteHeader c w)"

section \<open>The collaborators: Store, Executor, JSON encoder\<close>

text \<open>
  The handlers reach the database and the host through the interfaces
  \<^verbatim>\<open>store.ImageStore\<close>, \<^verbatim>\<open>store.InstanceStore\<close> and \<^verbatim>\<open>exec.Executor\<close>. Every call
  can return an error. Which calls fail during one request, and with which message, is the
  environment of that request.
\<close>

datatype store_call =
    ImgList
  | ImgGet int
  | ImgCreate Image
  | ImgMarkAsReady Image
  | ImgDestroy Image
  | InstList
  | InstGet int
  | InstCreate Instance
  | InstDestroy Instance

datatype exec_call =
    CreateBtrfsSubvolume int
  | FinaliseImage int
  | DestroyImage int
  | CreateInstance int
  | DestroyInstance int

text \<open>
  An effect: a call issued to change the Store, or any call to the Executor. It is
  recorded when it is issued, whether it then succeeds or fails.
\<close>

datatype effect = Store store_call | Exec exec_call

record env =
  store_err :: "store_call \<Rightarrow> string option"
  exec_err :: "exec_call \<Rightarrow> string option"
  encode_err :: bool
  exec_port :: int
  now :: int

text \<open>
  The world a request runs in: the two tables of the Store with their identifier
  sequences, the effects issued so far (oldest first), and the lines printed with
  \<^verbatim>\<open>log.Print\<close>.
\<close>

record world =
  image_rows :: "Image list"
  image_seq :: int
  instance_rows :: "Instance list"
  instance_seq :: int
  effects :: "effect list"
  log_lines :: "string list"

definition issue :: "effect \<Rightarrow> world \<Rightarrow> world" where
  "issue e w = w\<lparr>effects := effects w @ [e]\<rparr>"

definition log_Print :: "string \<Rightarrow> world \<Rightarrow> world" where
  "log_Print s w = w\<lparr>log_lines := log_lines w @ [s]\<rparr>"

definition no_rows :: string where
  "no_rows = ''sql: no rows in result set''"

text \<open>
  Modelled from the spec: the implementation of \<^verbatim>\<open>store.ImageStore\<close> is not among the
  sources. Section 6 gives its contract: a durable, key-indexed store of Image records
  with create, read, list, update (used to flip \<open>ready\<close>) and delete, each call strongly
  consistent; section 3 has the identifier assigned at creation and never reused. A
  failing call changes no record. \<open>List\<close> returns the records in the order of the
  table, which the contract leaves open.
\<close>

definition ImageStore_List :: "env \<Rightarrow> world \<Rightarrow> string + Image list" where
  "ImageStore_List e w =
     (case store_err e ImgList of Some msg \<Rightarrow> Inl msg | None \<Rightarrow> Inr (image_rows w))"

text \<open>
  Modelled from the spec: \<^verbatim>\<open>ImageStore.Get\<close>, not among the sources (section 6, read): the
  record kept under the identifier, or an error when there is none.
\<close>

definition ImageStore_Get :: "env \<Rightarrow> int \<Rightarrow> world \<Rightarrow> string + Image" where
  "ImageStore_Get e i w =
     (case store_err e (ImgGet i) of
        Some msg \<Rightarrow> Inl msg
      | None \<Rightarrow>
          (case find (\<lambda>r. ID r = i) (image_rows w) of
             None \<Rightarrow> Inl no_rows
           | Some r \<Rightarrow> Inr r))"

text \<open>
  Modelled from the spec: \<^verbatim>\<open>ImageStore.Create\<close>, not among the sources (section 6,
  create; section 3, identity): the record is kept under the next identifier of the
  sequence, stamped with the time of the call.
\<close>

definition ImageStore_Create :: "env \<Rightarrow> Image \<Rightarrow> world \<Rightarrow> (string + Image) \<times> world" where
  "ImageStore_Create e img w =
     (let w1 = issue (Store (ImgCreate img)) w in
      case store_err e (ImgCreate img) of
        Some msg \<Rightarrow> (Inl msg, w1)
      | None \<Rightarrow>
          (let row = img\<lparr>ID := image_seq w, CreatedAt := now e, UpdatedAt := now e\<rparr>
           in (Inr row,
               w1\<lparr>image_rows := image_rows w @ [row], image_seq := image_seq w + 1\<rparr>)))"

text \<open>
  Modelled from the spec: \<^verbatim>\<open>ImageStore.MarkAsReady\<close>, not among the sources (section 6, the
  update used to flip \<open>ready\<close>): the records kept under the Image's identifier become
  ready; the updated record is returned.
\<close>

definition mark_rows :: "int \<Rightarrow> int \<Rightarrow> Image list \<Rightarrow> Image list" where
  "mark_rows i t rows =
     map (\<lambda>x. if ID x = i then x\<lparr>Ready := True, UpdatedAt := t\<rparr> else x) rows"

definition ImageStore_MarkAsReady :: "env \<Rightarrow> Image \<Rightarrow> world \<Rightarrow> (string + Image) \<times> world" where
  "ImageStore_MarkAsReady e img w =
     (let w1 = issue (Store (ImgMarkAsReady img)) w in
      case store_err e (ImgMarkAsReady img) of
        Some msg \<Rightarrow> (Inl msg, w1)
      | None \<Rightarrow>
          (case find (\<lambda>r. ID r = ID img) (image_rows w) of
             None \<Rightarrow> (Inl no_rows, w1)
           | Some r \<Rightarrow>
               (Inr (r\<lparr>Ready := True, UpdatedAt := now e\<rparr>),
                w1\<lparr>image_rows := mark_rows (ID img) (now e) (image_rows w)\<rparr>)))"

text \<open>
  A call to the Executor: it is issued (and observed) whether it succeeds or not, and its
  outcome is the environment's.
\<close>

definition Executor_call :: "env \<Rightarrow> exec_call \<Rightarrow> world \<Rightarrow> string option \<times> world" where
  "Executor_call e c w = (exec_err e c, issue (Exec c) w)"

text \<open>
  \<^verbatim>\<open>json.NewEncoder(w).Encode(v)\<close>: the value is marshalled first, so a failing encode
  writes nothing. The result is whether it failed.
\<close>

definition Encode :: "env \<Rightarrow> payload \<Rightarrow> ResponseWriter \<Rightarrow> bool \<times> ResponseWriter" where
  "Encode e v w = (if encode_err e then (True, w) else (False, Write v w))"

text \<open>\<^verbatim>\<open>RenderError\<close>: the status, then the error as JSON; an encoding error is dropped.\<close>

definition RenderError :: "env \<Rightarrow> ResponseWriter \<Rightarrow> nat \<Rightarrow> APIError \<Rightarrow> ResponseWriter" where
  "RenderError e w statuscode err = snd (Encode e (ErrorJSON err) (WriteHeader statuscode w))"

section \<open>strconv.Atoi\<close>

text \<open>
  An optional sign, then one or more decimal digits, and a value that fits Go's 64-bit
  \<^verbatim>\<open>int\<close>; every other string is an error. The handlers only test the error for nil.
\<close>

definition is_digit :: "char \<Rightarrow> bool" where
  "is_digit c = (48 \<le> (of_char c :: nat) \<and> (of_char c :: nat) \<le> 57)"

definition digit_value :: "char \<Rightarrow> int" where
  "digit_value c = int (of_char c) - 48"

definition Atoi :: "string \<Rightarrow> int option" where
  "Atoi s =
     (let signed = (s \<noteq> [] \<and> (hd s = CHR ''-'' \<or> hd s = CHR ''+''));
          neg = (s \<noteq> [] \<and> hd s = CHR ''-'');
          ds = (if signed then tl s else s)
      in if ds = [] \<or> \<not> list_all is_digit ds then None
         else (let n = foldl (\<lambda>a c. 10 * a + digit_value c) 0 ds;
                   v = (if neg then - n else n)
               in if v < - (2 ^ 63) \<or> 2 ^ 63 - 1 < v then None else Some v))"

section \<open>The Images handlers of routes/images.go\<close>

text \<open>
  Modelled from the spec: \<^verbatim>\<open>models.NewImage\<close> is not among the sources. Section 4.1 has a
  new Image start with \<open>ready = false\<close>; the other fields are Go's zero values until the
  Store fills them in.
\<close>

definition NewImage :: "int \<Rightarrow> Image" where
  "NewImage backedUpAt =
     \<lparr>ID = 0, BackedUpAt = backedUpAt, Anon = [], Ready = False, CreatedAt = 0, UpdatedAt = 0\<rparr>"

definition Images_List :: "env \<Rightarrow> world \<Rightarrow> ResponseWriter \<times> world" where
  "Images_List e w =
     (case ImageStore_List e w of
        Inl err \<Rightarrow> (http_Error NewRecorder (''routes error: '' @ err) StatusInternalServerError, w)
      | Inr images \<Rightarrow>
          (case Encode e (ImageListJSON images) NewRecorder of
             (True, rw) \<Rightarrow> (http_Error rw ''json encoding failed'' StatusInternalServerError, w)
           | (False, rw) \<Rightarrow> (rw, w)))"

text \<open>
  The request body enters as the outcome of \<^verbatim>\<open>json.NewDecoder(r.Body).Decode(&req)\<close>:
  the decoder's error message, or the decoded request.
\<close>

definition Images_Create :: "env \<Rightarrow> string + createImageRequest \<Rightarrow> world \<Rightarrow> ResponseWriter \<times> world" where
  "Images_Create e body w =
     (case body of
        Inl err \<Rightarrow>
          (http_Error NewRecorder (''json decoding failed: '' @ err) StatusInternalServerError, w)
      | Inr req \<Rightarrow>
          (case ImageStore_Create e (NewImage (req_BackedUpAt req)) w of
             (Inl err, w1) \<Rightarrow>
               (http_Error NewRecorder (''error creating image: '' @ err) StatusInternalServerError, w1)
           | (Inr img, w1) \<Rightarrow>
               (case Executor_call e (CreateBtrfsSubvolume (ID img)) w1 of
                  (Some err, w2) \<Rightarrow>
                    (http_Error NewRecorder (''error creating btrfs subvolume: '' @ err)
                       StatusInternalServerError, w2)
                | (None, w2) \<Rightarrow>
                    (case Encode e (ImageJSON img) (WriteHeader StatusCreated NewRecorder) of
                       (True, rw) \<Rightarrow>
                         (http_Error rw ''json encoding failed'' StatusInternalServerError, w2)
                     | (False, rw) \<Rightarrow> (rw, w2)))))"

text \<open>The argument is the path variable \<^verbatim>\<open>mux.Vars(r)["id"]\<close>.\<close>

definition Images_Done :: "env \<Rightarrow> string \<Rightarrow> world \<Rightarrow> ResponseWriter \<times> world" where
  "Images_Done e idvar w =
     (case Atoi idvar of
        None \<Rightarrow> (http_Error NewRecorder ''invalid id'' StatusBadRequest, w)
      | Some i \<Rightarrow>
          (case ImageStore_Get e i w of
             Inl err \<Rightarrow> (http_Error NewRecorder ''cannot find image'' StatusNotFound, w)
           | Inr img \<Rightarrow>
               if Ready img
               then (http_Error NewRecorder ''image is already finalised'' StatusBadRequest, w)
               else
                 (case Executor_call e (FinaliseImage (ID img)) w of
                    (Some err, w1) \<Rightarrow>
                      (http_Error NewRecorder ''could not finalise image'' StatusInternalServerError,
                       log_Print err w1)
                  | (None, w1) \<Rightarrow>
                      (case ImageStore_MarkAsReady e img w1 of
                         (Inl err, w2) \<Rightarrow>
                           (http_Error NewRecorder ''failed to mark image as ready''
                              StatusInternalServerError,
                            log_Print err w2)
                       | (Inr img', w2) \<Rightarrow>
                           (case Encode e (ImageJSON img') (WriteHeader StatusOK NewRecorder) of
                              (True, rw) \<Rightarrow>
                                (http_Error rw ''json encoding failed'' StatusInternalServerError, w2)
                            | (False, rw) \<Rightarrow> (rw, w2))))))"

section \<open>The operations whose handlers are not among the sources\<close>

text \<open>
  \<^verbatim>\<open>routes/images.go\<close> holds \<open>List\<close>, \<open>Create\<close> and \<open>Done\<close>. The handlers for
  \<open>Images.Get\<close>, \<open>Images.Destroy\<close> and all of \<open>Instances\<close> are named by
  \<^verbatim>\<open>main.go\<close> and by the tests only; they are modelled from the specification. A
  failure is rendered with \<open>RenderError\<close>, as the status the specification names for it
  and the \<open>APIError\<close> of that status.
\<close>

text \<open>
  Modelled from the spec: the authorization contract (sections 4.5 and 6) is not among the
  sources. A request resolves to one of two classes of principal, or to none when the
  identity cannot be established.
\<close>

datatype principal = Ordinary | Upload

text \<open>
  Modelled from the spec: \<^verbatim>\<open>ImageStore.Destroy\<close>, not among the sources (section 6,
  delete). Deleting removes the records kept under the identifier.
\<close>

definition ImageStore_Destroy :: "env \<Rightarrow> Image \<Rightarrow> world \<Rightarrow> string option \<times> world" where
  "ImageStore_Destroy e img w =
     (let w1 = issue (Store (ImgDestroy img)) w in
      case store_err e (ImgDestroy img) of
        Some msg \<Rightarrow> (Some msg, w1)
      | None \<Rightarrow> (None, w1\<lparr>image_rows := filter (\<lambda>r. ID r \<noteq> ID img) (image_rows w)\<rparr>))"

text \<open>
  Modelled from the spec: \<^verbatim>\<open>InstanceStore.List\<close>, not among the sources (section 6).
\<close>

definition InstanceStore_List :: "env \<Rightarrow> world \<Rightarrow> string + Instance list" where
  "InstanceStore_List e w =
     (case store_err e InstList of Some msg \<Rightarrow> Inl msg | None \<Rightarrow> Inr (instance_rows w))"

text \<open>
  Modelled from the spec: \<^verbatim>\<open>InstanceStore.Get\<close>, not among the sources (section 6, read).
  Section 4.2 has NotFound for an absent Instance and section 7 has a failure of the Store
  surface as InternalError, so a read tells the two apart: it finds the record, finds
  none, or fails.
\<close>

datatype 'a lookup = Found 'a | Absent | Failed string

definition InstanceStore_Get :: "env \<Rightarrow> int \<Rightarrow> world \<Rightarrow> Instance lookup" where
  "InstanceStore_Get e i w =
     (case store_err e (InstGet i) of
        Some msg \<Rightarrow> Failed msg
      | None \<Rightarrow>
          (case find (\<lambda>r. Instance_ID r = i) (instance_rows w) of
             None \<Rightarrow> Absent
           | Some r \<Rightarrow> Found r))"

text \<open>
  Modelled from the spec: \<^verbatim>\<open>InstanceStore.Create\<close>, not among the sources (section 6).
\<close>

definition InstanceStore_Create ::
  "env \<Rightarrow> Instance \<Rightarrow> world \<Rightarrow> (string + Instance) \<times> world" where
  "InstanceStore_Create e inst w =
     (let w1 = issue (Store (InstCreate inst)) w in
      case store_err e (InstCreate inst) of
        Some msg \<Rightarrow> (Inl msg, w1)
      | None \<Rightarrow>
          (let row = inst\<lparr>Instance_ID := instance_seq w,
                         Instance_CreatedAt := now e, Instance_UpdatedAt := now e\<rparr>
           in (Inr row,
               w1\<lparr>instance_rows := instance_rows w @ [row],
                   instance_seq := instance_seq w + 1\<rparr>)))"

text \<open>
  Modelled from the spec: \<^verbatim>\<open>InstanceStore.Destroy\<close>, not among the sources (section 6).
\<close>

definition InstanceStore_Destroy :: "env \<Rightarrow> Instance \<Rightarrow> world \<Rightarrow> string option \<times> world" where
  "InstanceStore_Destroy e inst w =
     (let w1 = issue (Store (InstDestroy inst)) w in
      case store_err e (InstDestroy inst) of
        Some msg \<Rightarrow> (Some msg, w1)
      | None \<Rightarrow>
          (None,
           w1\<lparr>instance_rows :=
                 filter (\<lambda>r. Instance_ID r \<noteq> Instance_ID inst) (instance_rows w)\<rparr>))"

text \<open>
  A failure to render: the HTTP status and the \<open>APIError\<close> sent with it, as the tests
  read them back (\<^verbatim>\<open>recorder.Code\<close> and the decoded body).
\<close>

type_synonym rendered = "nat \<times> APIError"

definition render :: "env \<Rightarrow> rendered \<Rightarrow> ResponseWriter" where
  "render e f = RenderError e NewRecorder (fst f) (snd f)"

text \<open>
  Modelled from the spec: Instance Lifecycle \<open>Destroy(id)\<close> of section 4.2, whose handler is
  not among the sources. It fails with NotFound if the Instance is absent; otherwise the
  Executor stops the process and deletes the snapshot, then the Store deletes the record;
  on an Executor failure the record is retained and InternalError is surfaced. A failure
  of the Store, in the lookup or in the delete, is an InternalError too (section 7).
\<close>

definition Instance_Destroy :: "env \<Rightarrow> int \<Rightarrow> world \<Rightarrow> rendered option \<times> world" where
  "Instance_Destroy e i w =
     (case InstanceStore_Get e i w of
        Absent \<Rightarrow> (Some (StatusNotFound, notFoundError), w)
      | Failed err \<Rightarrow> (Some (StatusInternalServerError, internalServerError), w)
      | Found inst \<Rightarrow>
          (case Executor_call e (DestroyInstance (Instance_ID inst)) w of
             (Some err, w1) \<Rightarrow> (Some (StatusInternalServerError, internalServerError), w1)
           | (None, w1) \<Rightarrow>
               (case InstanceStore_Destroy e inst w1 of
                  (Some err, w2) \<Rightarrow> (Some (StatusInternalServerError, internalServerError), w2)
                | (None, w2) \<Rightarrow> (None, w2))))"

text \<open>
  Modelled from the spec: the Conflict of sections 4.1 and 7 for an Image that still has
  dependents. The sources declare \<open>cannotDeleteImageWithInstancesError\<close> with status 422,
  but no code among them renders it, so the response follows the specification: status
  409 with an error of that status.
\<close>

definition conflictError :: APIError where
  "conflictError =
     \<lparr>APIError_ID = ''conflict'', Status = ''409'',
      Code = ''conflict'', Title = ''Image Has Instances'',
      Detail = ''Cannot delete an image that has instances'', Source = noSource\<rparr>"

text \<open>
  Modelled from the spec: Image Lifecycle \<open>Destroy(id)\<close> of section 4.1, whose handler is
  not among the sources. It fails with NotFound if the Image is absent, and with Conflict,
  before any side effect, if any live Instance still references the Image. Otherwise the
  Executor deletes the subvolume, then the Store deletes the record; on an Executor
  failure the record is retained and InternalError is surfaced.
\<close>

definition Image_Destroy :: "env \<Rightarrow> int \<Rightarrow> world \<Rightarrow> rendered option \<times> world" where
  "Image_Destroy e i w =
     (case ImageStore_Get e i w of
        Inl err \<Rightarrow> (Some (StatusNotFound, notFoundError), w)
      | Inr img \<Rightarrow>
          if \<exists>inst \<in> set (instance_rows w). Instance_ImageID inst = ID img
          then (Some (StatusConflict, conflictError), w)
          else
            (case Executor_call e (DestroyImage (ID img)) w of
               (Some err, w1) \<Rightarrow> (Some (StatusInternalServerError, internalServerError), w1)
             | (None, w1) \<Rightarrow>
                 (case ImageStore_Destroy e img w1 of
                    (Some err, w2) \<Rightarrow> (Some (StatusInternalServerError, internalServerError), w2)
                  | (None, w2) \<Rightarrow> (None, w2))))"

text \<open>
  Modelled from the spec: the Cascade-Destroy orchestrator of section 4.4, which is not
  among the sources. The dependents are destroyed in turn through Instance Lifecycle;
  NotFound counts as success, any other failure aborts the cascade with InternalError.
\<close>

fun cascade :: "env \<Rightarrow> Instance list \<Rightarrow> world \<Rightarrow> rendered option \<times> world" where
  "cascade e [] w = (None, w)"
| "cascade e (inst # rest) w =
     (case Instance_Destroy e (Instance_ID inst) w of
        (None, w1) \<Rightarrow> cascade e rest w1
      | (Some f, w1) \<Rightarrow>
          if fst f = StatusNotFound then cascade e rest w1
          else (Some (StatusInternalServerError, internalServerError), w1))"

text \<open>
  Modelled from the spec: the selection of section 4.4, not among the sources. The
  dependents of an Image are the Instances whose \<open>image_id\<close> is the target, in ascending
  order of identifier.
\<close>

definition dependents :: "int \<Rightarrow> Instance list \<Rightarrow> Instance list" where
  "dependents i rows = sort_key Instance_ID (filter (\<lambda>x. Instance_ImageID x = i) rows)"

text \<open>
  Modelled from the spec: \<open>Images.Destroy\<close>, whose handler is not among the sources (its
  tests are). Sections 4.4 and 4.5: a request whose principal cannot be established is
  Unauthorized; an unknown Image is NotFound; for the upload principal the dependents
  are listed and destroyed first and the Image only after all of them; an ordinary
  principal goes to Image Lifecycle \<open>Destroy\<close> directly. The tests have a successful
  destroy answer 204 with an empty body.
\<close>

definition Images_Destroy ::
  "env \<Rightarrow> principal option \<Rightarrow> int \<Rightarrow> world \<Rightarrow> ResponseWriter \<times> world" where
  "Images_Destroy e auth i w =
     (case auth of
        None \<Rightarrow> (render e (StatusUnauthorized, unauthorizedError), w)
      | Some p \<Rightarrow>
          (case ImageStore_Get e i w of
             Inl err \<Rightarrow> (render e (StatusNotFound, notFoundError), w)
           | Inr img \<Rightarrow>
               (case (if p = Upload
                      then (case InstanceStore_List e w of
                              Inl err \<Rightarrow>
                                (Some (StatusInternalServerError, internalServerError), w)
                            | Inr instances \<Rightarrow> cascade e (dependents (ID img) instances) w)
                      else (None, w)) of
                  (Some f, w1) \<Rightarrow> (render e f, w1)
                | (None, w1) \<Rightarrow>
                    (case Image_Destroy e (ID img) w1 of
                       (Some f, w2) \<Rightarrow> (render e f, w2)
                     | (None, w2) \<Rightarrow> (WriteHeader StatusNoContent NewRecorder, w2)))))"

text \<open>
  Modelled from the spec: \<open>Images.Get\<close> of section 4.1, whose handler is not among the
  sources: the record under the identifier, NotFound if absent; no side effect.
\<close>

definition Images_Get ::
  "env \<Rightarrow> principal option \<Rightarrow> int \<Rightarrow> world \<Rightarrow> ResponseWriter \<times> world" where
  "Images_Get e auth i w =
     (case auth of
        None \<Rightarrow> (render e (StatusUnauthorized, unauthorizedError), w)
      | Some p \<Rightarrow>
          (case ImageStore_Get e i w of
             Inl err \<Rightarrow> (render e (StatusNotFound, notFoundError), w)
           | Inr img \<Rightarrow> (snd (Encode e (ImageJSON img) (WriteHeader StatusOK NewRecorder)), w)))"

text \<open>
  Modelled from the spec: \<open>Instances.List\<close> of section 4.2, whose handler is not among the
  sources: all Instance records; no side effect.
\<close>

definition Instances_List :: "env \<Rightarrow> principal option \<Rightarrow> world \<Rightarrow> ResponseWriter \<times> world" where
  "Instances_List e auth w =
     (case auth of
        None \<Rightarrow> (render e (StatusUnauthorized, unauthorizedError), w)
      | Some p \<Rightarrow>
          (case InstanceStore_List e w of
             Inl err \<Rightarrow> (render e (StatusInternalServerError, internalServerError), w)
           | Inr instances \<Rightarrow>
               (snd (Encode e (InstanceListJSON instances) (WriteHeader StatusOK NewRecorder)), w)))"

text \<open>
  Modelled from the spec: \<open>Instances.Get\<close> of section 4.2, whose handler is not among the
  sources: the record under the identifier, NotFound if absent, InternalError if the Store
  fails; no side effect.
\<close>

definition Instances_Get ::
  "env \<Rightarrow> principal option \<Rightarrow> int \<Rightarrow> world \<Rightarrow> ResponseWriter \<times> world" where
  "Instances_Get e auth i w =
     (case auth of
        None \<Rightarrow> (render e (StatusUnauthorized, unauthorizedError), w)
      | Some p \<Rightarrow>
          (case InstanceStore_Get e i w of
             Absent \<Rightarrow> (render e (StatusNotFound, notFoundError), w)
           | Failed err \<Rightarrow> (render e (StatusInternalServerError, internalServerError), w)
           | Found inst \<Rightarrow>
               (snd (Encode e (InstanceJSON inst) (WriteHeader StatusOK NewRecorder)), w)))"

text \<open>
  Modelled from the spec: \<open>Instances.Create(imageID)\<close> of section 4.2, whose handler is not
  among the sources. It fails with NotFound if the Image does not exist and with
  Unprocessable if its \<open>ready\<close> is false, with the errors the sources keep for the two
  cases. Otherwise the Executor allocates a port, derives the snapshot and starts the
  process, and the Store persists the Instance with the allocated port; a failure of
  either is an InternalError.
\<close>

definition Instances_Create ::
  "env \<Rightarrow> principal option \<Rightarrow> int \<Rightarrow> world \<Rightarrow> ResponseWriter \<times> world" where
  "Instances_Create e auth imageID w =
     (case auth of
        None \<Rightarrow> (render e (StatusUnauthorized, unauthorizedError), w)
      | Some p \<Rightarrow>
          (case ImageStore_Get e imageID w of
             Inl err \<Rightarrow> (render e (StatusNotFound, imageNotFoundError), w)
           | Inr img \<Rightarrow>
               if \<not> Ready img
               then (render e (StatusUnprocessableEntity, unreadyImageError), w)
               else
                 (case Executor_call e (CreateInstance (ID img)) w of
                    (Some err, w1) \<Rightarrow>
                      (render e (StatusInternalServerError, internalServerError), w1)
                  | (None, w1) \<Rightarrow>
                      (case InstanceStore_Create e
                              \<lparr>Instance_ID = 0, Instance_ImageID = ID img,
                               Instance_Port = exec_port e,
                               Instance_CreatedAt = 0, Instance_UpdatedAt = 0\<rparr> w1 of
                         (Inl err, w2) \<Rightarrow>
                           (render e (StatusInternalServerError, internalServerError), w2)
                       | (Inr inst, w2) \<Rightarrow>
                           (snd (Encode e (InstanceJSON inst)
                                   (WriteHeader StatusCreated NewRecorder)), w2)))))"

text \<open>
  Modelled from the spec: \<open>Instances.Destroy(id)\<close> of section 4.2, whose handler is not
  among the sources: Instance Lifecycle \<open>Destroy\<close>, answered with 204 on success.
\<close>

definition Instances_Destroy ::
  "env \<Rightarrow> principal option \<Rightarrow> int \<Rightarrow> world \<Rightarrow> ResponseWriter \<times> world" where
  "Instances_Destroy e auth i w =
     (case auth of
        None \<Rightarrow> (render e (StatusUnauthorized, unauthorizedError), w)
      | Some p \<Rightarrow>
          (case Instance_Destroy e i w of
             (Some f, w1) \<Rightarrow> (render e f, w1)
           | (None, w1) \<Rightarrow> (WriteHeader StatusNoContent NewRecorder, w1)))"

section \<open>Requests and runs\<close>

text \<open>
  The operations of the system, one constructor per handler, and a run: requests served
  one after the other, each in its own environment.
\<close>

datatype request =
    ReqImagesList
  | ReqImagesGet "principal option" int
  | ReqImagesCreate "string + createImageRequest"
  | ReqImagesDone string
  | ReqImagesDestroy "principal option" int
  | ReqInstancesList "principal option"
  | ReqInstancesGet "principal option" int
  | ReqInstancesCreate "principal option" int
  | ReqInstancesDestroy "principal option" int

fun serve :: "env \<Rightarrow> request \<Rightarrow> world \<Rightarrow> ResponseWriter \<times> world" where
  "serve e ReqImagesList w = Images_List e w"
| "serve e (ReqImagesGet auth i) w = Images_Get e auth i w"
| "serve e (ReqImagesCreate body) w = Images_Create e body w"
| "serve e (ReqImagesDone idvar) w = Images_Done e idvar w"
| "serve e (ReqImagesDestroy auth i) w = Images_Destroy e auth i w"
| "serve e (ReqInstancesList auth) w = Instances_List e auth w"
| "serve e (ReqInstancesGet auth i) w = Instances_Get e auth i w"
| "serve e (ReqInstancesCreate auth i) w = Instances_Create e auth i w"
| "serve e (ReqInstancesDestroy auth i) w = Instances_Destroy e auth i w"

fun run :: "(env \<times> request) list \<Rightarrow> world \<Rightarrow> world" where
  "run [] w = w"
| "run ((e, r) # rs) w = run rs (snd (serve e r w))"

text \<open>
  The Store assigns identifiers from its sequence: every record kept lies below it.
\<close>

definition seq_ok :: "world \<Rightarrow> bool" where
  "seq_ok w = list_all (\<lambda>r. ID r < image_seq w) (image_rows w)"

text \<open>Reading the Store: the record kept under an identifier.\<close>

definition stored :: "world \<Rightarrow> int \<Rightarrow> Image option" where
  "stored w i = find (\<lambda>r. ID r = i) (image_rows w)"

section \<open>Effects of a cascade\<close>

text \<open>
  The effects that destroy Instances, the effects of destroying a list of Instances one
  after the other, and what a destroy of Instances leaves alone: the Image table, and
  every Instance record it does not delete.
\<close>

definition instance_effect :: "effect \<Rightarrow> bool" where
  "instance_effect ef =
     (case ef of Exec (DestroyInstance j) \<Rightarrow> True | Store (InstDestroy x) \<Rightarrow> True | _ \<Rightarrow> False)"

definition destroy_effects :: "Instance list \<Rightarrow> effect list" where
  "destroy_effects xs =
     concat (map (\<lambda>x. [Exec (DestroyInstance (Instance_ID x)), Store (InstDestroy x)]) xs)"

text \<open>
  The destroy of an Instance that is in the Store fails when its lookup fails, the
  Executor fails or the Store's delete fails; none of these is NotFound. The effects of
  the failing attempt are those issued up to the failure.
\<close>

definition destroy_fails :: "env \<Rightarrow> Instance \<Rightarrow> bool" where
  "destroy_fails e x \<longleftrightarrow>
     store_err e (InstGet (Instance_ID x)) \<noteq> None
   \<or> exec_err e (DestroyInstance (Instance_ID x)) \<noteq> None
   \<or> store_err e (InstDestroy x) \<noteq> None"

definition attempt :: "env \<Rightarrow> Instance \<Rightarrow> effect list" where
  "attempt e x =
     (if store_err e (InstGet (Instance_ID x)) \<noteq> None then []
      else if exec_err e (DestroyInstance (Instance_ID x)) \<noteq> None
           then [Exec (DestroyInstance (Instance_ID x))]
           else [Exec (DestroyInstance (Instance_ID x)), Store (InstDestroy x)])"

definition instances_step :: "world \<Rightarrow> world \<Rightarrow> bool" where
  "instances_step w w' \<longleftrightarrow>
     image_rows w' = image_rows w \<and> image_seq w' = image_seq w
   \<and> (\<exists>new. effects w' = effects w @ new \<and> list_all instance_effect new)
   \<and> (\<exists>P. instance_rows w' = filter P (instance_rows w))"

section \<open>What a request can do to the Image table\<close>

text \<open>
  A request that is not Finalise leaves the Image table as it was, appends a record under
  the next identifier of the sequence, or deletes the records of one identifier.
\<close>

definition no_flip :: "world \<Rightarrow> world \<Rightarrow> bool" where
  "no_flip w w' \<longleftrightarrow>
     (image_rows w' = image_rows w \<and> image_seq w' = image_seq w)
   \<or> (\<exists>row. image_rows w' = image_rows w @ [row] \<and> ID row = image_seq w
           \<and> image_seq w' = image_seq w + 1)
   \<or> (\<exists>j. image_rows w' = filter (\<lambda>r. ID r \<noteq> j) (image_rows w)
           \<and> image_seq w' = image_seq w)"

definition is_Done :: "request \<Rightarrow> bool" where
  "is_Done rq = (case rq of ReqImagesDone idvar \<Rightarrow> True | _ \<Rightarrow> False)"

text \<open>The invariant of a run: the identifier is spent, and what is kept under it is ready.\<close>

definition ready_or_gone :: "int \<Rightarrow> world \<Rightarrow> bool" where
  "ready_or_gone i w \<longleftrightarrow>
     i < image_seq w \<and> (case stored w i of None \<Rightarrow> True | Some r \<Rightarrow> Ready r)"

section \<open>The error taxonomy\<close>

text \<open>
  The kinds of failure of section 7 of the specification, and the kind a response
  surfaces: the one its HTTP status stands for.
\<close>

datatype failure = NotFound | Conflict | Unprocessable | Unauthorized | InternalError | BadRequest

definition surfaced :: "ResponseWriter \<Rightarrow> failure option" where
  "surfaced rw =
     (let c = resp_code rw in
      if c = StatusBadRequest then Some BadRequest
      else if c = StatusUnauthorized then Some Unauthorized
      else if c = StatusNotFound then Some NotFound
      else if c = StatusConflict then Some Conflict
      else if c = StatusUnprocessableEntity then Some Unprocessable
      else if c = StatusInternalServerError then Some InternalError
      else None)"

section \<open>Fixtures\<close>

text \<open>
  The values the tests of the routes use: the instant \<^verbatim>\<open>2016-01-01T12:33:44.567Z\<close> (in
  milliseconds), an unready Image 1, and environments in which nothing fails, the
  Executor fails, or the Store fails.
\<close>

definition timestamp :: int where
  "timestamp = 1451651624567"

definition image1 :: Image where
  "image1 = \<lparr>ID = 1, BackedUpAt = timestamp, Anon = [], Ready = False,
             CreatedAt = timestamp, UpdatedAt = timestamp\<rparr>"

definition world1 :: world where
  "world1 = \<lparr>image_rows = [image1], image_seq = 2, instance_rows = [], instance_seq = 1,
             effects = [], log_lines = []\<rparr>"

definition image1_ready :: Image where
  "image1_ready = image1\<lparr>Ready := True\<rparr>"

definition world1_ready :: world where
  "world1_ready = world1\<lparr>image_rows := [image1_ready]\<rparr>"

definition env_ok :: env where
  "env_ok = \<lparr>store_err = (\<lambda>c. None), exec_err = (\<lambda>c. None), encode_err = False,
             exec_port = 5432, now = timestamp\<rparr>"

definition env_exec_fails :: env where
  "env_exec_fails = env_ok\<lparr>exec_err := (\<lambda>c. Some ''some btrfs error'')\<rparr>"

definition env_write_fails :: env where
  "env_write_fails =
     env_ok\<lparr>store_err := (\<lambda>c. case c of ImgMarkAsReady x \<Rightarrow> Some ''connection reset''
                                       | InstDestroy x \<Rightarrow> Some ''connection reset''
                                       | ImgDestroy x \<Rightarrow> Some ''connection reset''
                                       | _ \<Rightarrow> None)\<rparr>"

text \<open>
  The Instances of \<^verbatim>\<open>TestImageDestroyFromUploadUser\<close>: Instances 1 and 3 are cloned from
  Image 1, Instance 2 from Image 2. The table holds them in descending order of
  identifier, so that the ascending order of a cascade is not the order of the listing.
\<close>

definition instance1 :: Instance where
  "instance1 = \<lparr>Instance_ID = 1, Instance_ImageID = 1, Instance_Port = 5432,
                Instance_CreatedAt = timestamp, Instance_UpdatedAt = timestamp\<rparr>"

definition instance2 :: Instance where
  "instance2 = \<lparr>Instance_ID = 2, Instance_ImageID = 2, Instance_Port = 5433,
                Instance_CreatedAt = timestamp, Instance_UpdatedAt = timestamp\<rparr>"

definition instance3 :: Instance where
  "instance3 = \<lparr>Instance_ID = 3, Instance_ImageID = 1, Instance_Port = 5434,
                Instance_CreatedAt = timestamp, Instance_UpdatedAt = timestamp\<rparr>"

definition world3 :: world where
  "world3 = \<lparr>image_rows = [image1_ready], image_seq = 3,
             instance_rows = [instance3, instance2, instance1], instance_seq = 4,
             effects = [], log_lines = []\<rparr>"

text \<open>
  Environments in which the Executor cannot destroy Instance 3, the Executor cannot
  destroy Instance 1, and the Store cannot look Instance 1 up.
\<close>

definition env_instance1_fails :: env where
  "env_instance1_fails =
     env_ok\<lparr>exec_err := (\<lambda>c. if c = DestroyInstance 1 then Some ''device busy'' else None)\<rparr>"

definition env_lookup1_fails :: env where
  "env_lookup1_fails =
     env_ok\<lparr>store_err := (\<lambda>c. if c = InstGet 1 then Some ''connection reset'' else None)\<rparr>"

definition env_instance3_fails :: env where
  "env_instance3_fails =
     env_ok\<lparr>exec_err := (\<lambda>c. if c = DestroyInstance 3 then Some ''device busy'' else None)\<rparr>"

text \<open>
  A run against a ready Image 1: a Finalise, a Create, a Finalise whose Executor would
  fail, an Instance Create and a Destroy by an ordinary principal.
\<close>

definition run1 :: "(env \<times> request) list" where
  "run1 = [(env_ok, ReqImagesDone ''1''),
           (env_ok, ReqImagesCreate (Inr (createImageRequest timestamp))),
           (env_exec_fails, ReqImagesDone ''1''),
           (env_ok, ReqInstancesCreate (Some Ordinary) 1),
           (env_ok, ReqImagesDestroy (Some Ordinary) 1)]"

section \<open>Basic facts\<close>

text \<open>The definitions that evaluate a request on given values.\<close>

lemmas eval_defs =
  Images_List_def Images_Get_def Images_Create_def Images_Done_def Images_Destroy_def
  Instances_List_def Instances_Get_def Instances_Create_def Instances_Destroy_def
  Instance_Destroy_def Image_Destroy_def dependents_def
  ImageStore_List_def ImageStore_Get_def ImageStore_Create_def ImageStore_MarkAsReady_def
  ImageStore_Destroy_def InstanceStore_List_def InstanceStore_Get_def InstanceStore_Create_def
  InstanceStore_Destroy_def Executor_call_def Encode_def RenderError_def render_def
  http_Error_def Write_def WriteHeader_def NewRecorder_def issue_def log_Print_def
  NewImage_def mark_rows_def Atoi_def is_digit_def digit_value_def stored_def Let_def
  env_ok_def env_exec_fails_def env_write_fails_def env_instance3_fails_def
  env_instance1_fails_def env_lookup1_fails_def
  world1_def world1_ready_def world3_def image1_def image1_ready_def
  instance1_def instance2_def instance3_def



lemma find_ID: "find (\<lambda>r. ID r = i) rows = Some r \<Longrightarrow> ID r = i"
  by (induction rows) (auto split: if_splits)

lemma stored_ID: "stored w i = Some img \<Longrightarrow> ID img = i"
  unfolding stored_def by (rule find_ID)

lemma Get_stored:
  "store_err e (ImgGet i) = None \<Longrightarrow> stored w i = Some img \<Longrightarrow> ImageStore_Get e i w = Inr img"
  by (simp add: ImageStore_Get_def stored_def)

lemma issue_simps:
  "image_rows (issue ef w) = image_rows w"
  "image_seq (issue ef w) = image_seq w"
  "instance_rows (issue ef w) = instance_rows w"
  "instance_seq (issue ef w) = instance_seq w"
  "effects (issue ef w) = effects w @ [ef]"
  "log_lines (issue ef w) = log_lines w"
  "stored (issue ef w) i = stored w i"
  by (simp_all add: issue_def stored_def)

lemma log_Print_simps:
  "image_rows (log_Print s w) = image_rows w"
  "image_seq (log_Print s w) = image_seq w"
  "instance_rows (log_Print s w) = instance_rows w"
  "instance_seq (log_Print s w) = instance_seq w"
  "effects (log_Print s w) = effects w"
  "stored (log_Print s w) i = stored w i"
  by (simp_all add: log_Print_def stored_def)

lemma resp_code_WriteHeader: "resp_code (WriteHeader c NewRecorder) = c"
  by (simp add: WriteHeader_def NewRecorder_def resp_code_def)

lemma resp_code_http_Error: "resp_code (http_Error NewRecorder msg c) = c"
  by (simp add: http_Error_def Write_def WriteHeader_def NewRecorder_def resp_code_def)

lemma resp_code_encoded:
  "resp_code (fst (case Encode e v (WriteHeader c NewRecorder) of
                     (True, rw) \<Rightarrow> (http_Error rw msg c', w)
                   | (False, rw) \<Rightarrow> (rw, w))) = c"
  by (simp add: Encode_def http_Error_def Write_def WriteHeader_def NewRecorder_def resp_code_def)

lemma snd_encoded:
  "snd (case Encode e v rw0 of (True, rw) \<Rightarrow> (f rw, w) | (False, rw) \<Rightarrow> (rw, w)) = w"
  by (simp add: Encode_def)

lemma resp_code_render: "resp_code (render e (c, err)) = c"
  by (simp add: render_def RenderError_def Encode_def Write_def WriteHeader_def NewRecorder_def
      resp_code_def)

lemma surfaced_InternalError:
  "resp_code rw = StatusInternalServerError \<Longrightarrow> surfaced rw = Some InternalError"
  by (simp add: surfaced_def StatusInternalServerError_def StatusBadRequest_def
      StatusUnauthorized_def StatusNotFound_def StatusConflict_def StatusUnprocessableEntity_def)

lemma surfaced_BadRequest:
  "resp_code rw = StatusBadRequest \<Longrightarrow> surfaced rw = Some BadRequest"
  by (simp add: surfaced_def)

lemma surfaced_NotFound:
  "resp_code rw = StatusNotFound \<Longrightarrow> surfaced rw = Some NotFound"
  by (simp add: surfaced_def StatusBadRequest_def StatusUnauthorized_def StatusNotFound_def)

lemma surfaced_Unprocessable:
  "resp_code rw = StatusUnprocessableEntity \<Longrightarrow> surfaced rw = Some Unprocessable"
  by (simp add: surfaced_def StatusBadRequest_def StatusUnauthorized_def StatusNotFound_def
      StatusConflict_def StatusUnprocessableEntity_def)

section \<open>Finalise\<close>

lemma MarkAsReady_fails:
  "store_err e (ImgMarkAsReady img) = Some msg \<Longrightarrow>
   ImageStore_MarkAsReady e img w = (Inl msg, issue (Store (ImgMarkAsReady img)) w)"
  by (simp add: ImageStore_MarkAsReady_def)

lemma MarkAsReady_ok:
  "store_err e (ImgMarkAsReady img) = None \<Longrightarrow> stored w (ID img) = Some r \<Longrightarrow>
   ImageStore_MarkAsReady e img w =
     (Inr (r\<lparr>Ready := True, UpdatedAt := now e\<rparr>),
      (issue (Store (ImgMarkAsReady img)) w)
        \<lparr>image_rows := mark_rows (ID img) (now e) (image_rows w)\<rparr>)"
  by (simp add: ImageStore_MarkAsReady_def stored_def)

lemma find_mark_rows:
  "find (\<lambda>r. ID r = i) rows = Some r \<Longrightarrow>
   find (\<lambda>r. ID r = i) (mark_rows i t rows) = Some (r\<lparr>Ready := True, UpdatedAt := t\<rparr>)"
  unfolding mark_rows_def by (induction rows) (auto split: if_splits)

lemma Done_exec_fails:
  assumes "Atoi idvar = Some i" and "store_err e (ImgGet i) = None"
    and "stored w i = Some img" and "\<not> Ready img"
    and "exec_err e (FinaliseImage i) = Some msg"
  shows "Images_Done e idvar w =
     (http_Error NewRecorder ''could not finalise image'' StatusInternalServerError,
      log_Print msg (issue (Exec (FinaliseImage i)) w))"
  using assms stored_ID[OF assms(3)]
  by (simp add: Images_Done_def Get_stored Executor_call_def)

lemma Done_mark_fails:
  assumes "Atoi idvar = Some i" and "store_err e (ImgGet i) = None"
    and "stored w i = Some img" and "\<not> Ready img"
    and "exec_err e (FinaliseImage i) = None"
    and "store_err e (ImgMarkAsReady img) = Some msg"
  shows "Images_Done e idvar w =
     (http_Error NewRecorder ''failed to mark image as ready'' StatusInternalServerError,
      log_Print msg (issue (Store (ImgMarkAsReady img)) (issue (Exec (FinaliseImage i)) w)))"
  using assms stored_ID[OF assms(3)]
  by (simp add: Images_Done_def Get_stored Executor_call_def MarkAsReady_fails)

lemma Done_ok:
  assumes "Atoi idvar = Some i" and "store_err e (ImgGet i) = None"
    and "stored w i = Some img" and "\<not> Ready img"
    and "exec_err e (FinaliseImage i) = None"
    and "store_err e (ImgMarkAsReady img) = None"
  shows "snd (Images_Done e idvar w) =
           (issue (Store (ImgMarkAsReady img)) (issue (Exec (FinaliseImage i)) w))
             \<lparr>image_rows := mark_rows i (now e) (image_rows w)\<rparr>"
    and "resp_code (fst (Images_Done e idvar w)) = StatusOK"
proof -
  have idi: "ID img = i" using assms(3) by (rule stored_ID)
  have st: "stored (issue (Exec (FinaliseImage i)) w) (ID img) = Some img"
    using assms(3) idi by (simp add: issue_simps)
  have D: "Images_Done e idvar w =
     (case Encode e (ImageJSON (img\<lparr>Ready := True, UpdatedAt := now e\<rparr>))
             (WriteHeader StatusOK NewRecorder) of
        (True, rw) \<Rightarrow>
          (http_Error rw ''json encoding failed'' StatusInternalServerError,
           (issue (Store (ImgMarkAsReady img)) (issue (Exec (FinaliseImage i)) w))
             \<lparr>image_rows := mark_rows i (now e) (image_rows w)\<rparr>)
      | (False, rw) \<Rightarrow>
          (rw, (issue (Store (ImgMarkAsReady img)) (issue (Exec (FinaliseImage i)) w))
             \<lparr>image_rows := mark_rows i (now e) (image_rows w)\<rparr>))"
    using assms idi
    by (simp add: Images_Done_def Get_stored Executor_call_def MarkAsReady_ok[OF assms(6) st]
        issue_simps)
  show "snd (Images_Done e idvar w) =
           (issue (Store (ImgMarkAsReady img)) (issue (Exec (FinaliseImage i)) w))
             \<lparr>image_rows := mark_rows i (now e) (image_rows w)\<rparr>"
    unfolding D by (rule snd_encoded)
  show "resp_code (fst (Images_Done e idvar w)) = StatusOK"
    unfolding D by (rule resp_code_encoded)
qed

lemma Done_ready:
  assumes "Atoi idvar = Some i" and "store_err e (ImgGet i) = None"
    and "stored w i = Some img" and "Ready img"
  shows "Images_Done e idvar w =
           (http_Error NewRecorder ''image is already finalised'' StatusBadRequest, w)"
  using assms by (simp add: Images_Done_def Get_stored)

text \<open>
  C3. For an existing Image with \<open>ready = false\<close>, Finalise calls the Executor's
  finalisation first and only after its success asks the Store to flip \<open>ready\<close>. If the
  Executor fails, the response is InternalError, the only effect is the Executor call and
  the stored record is the same, still unready. If both calls succeed the record is
  ready. The record is never found ready afterwards unless the Executor call succeeded.
\<close>

theorem Done_executor_then_ready:
  assumes "Atoi idvar = Some i" and "store_err e (ImgGet i) = None"
    and "stored w i = Some img" and "\<not> Ready img"
  shows "(exec_err e (FinaliseImage i) \<noteq> None \<longrightarrow>
            surfaced (fst (Images_Done e idvar w)) = Some InternalError
          \<and> image_rows (snd (Images_Done e idvar w)) = image_rows w
          \<and> stored (snd (Images_Done e idvar w)) i = Some img
          \<and> effects (snd (Images_Done e idvar w)) = effects w @ [Exec (FinaliseImage i)])
       \<and> (exec_err e (FinaliseImage i) = None \<longrightarrow>
            effects (snd (Images_Done e idvar w))
              = effects w @ [Exec (FinaliseImage i), Store (ImgMarkAsReady img)])
       \<and> (exec_err e (FinaliseImage i) = None \<and> store_err e (ImgMarkAsReady img) = None \<longrightarrow>
            resp_code (fst (Images_Done e idvar w)) = StatusOK
          \<and> stored (snd (Images_Done e idvar w)) i
              = Some (img\<lparr>Ready := True, UpdatedAt := now e\<rparr>))
       \<and> ((\<exists>r. stored (snd (Images_Done e idvar w)) i = Some r \<and> Ready r) \<longrightarrow>
            exec_err e (FinaliseImage i) = None)"
proof -
  have fail: "surfaced (fst (Images_Done e idvar w)) = Some InternalError
          \<and> image_rows (snd (Images_Done e idvar w)) = image_rows w
          \<and> stored (snd (Images_Done e idvar w)) i = Some img
          \<and> effects (snd (Images_Done e idvar w)) = effects w @ [Exec (FinaliseImage i)]"
    if "exec_err e (FinaliseImage i) \<noteq> None"
  proof -
    from that obtain msg where m: "exec_err e (FinaliseImage i) = Some msg" by auto
    show ?thesis
      unfolding Done_exec_fails[OF assms m]
      by (simp add: surfaced_InternalError resp_code_http_Error issue_simps log_Print_simps
          assms(3))
  qed
  have eff: "effects (snd (Images_Done e idvar w))
              = effects w @ [Exec (FinaliseImage i), Store (ImgMarkAsReady img)]"
    if x: "exec_err e (FinaliseImage i) = None"
  proof (cases "store_err e (ImgMarkAsReady img)")
    case None
    show ?thesis
      unfolding Done_ok(1)[OF assms x None] by (simp add: issue_simps)
  next
    case (Some msg)
    show ?thesis
      unfolding Done_mark_fails[OF assms x Some] by (simp add: issue_simps log_Print_simps)
  qed
  have ok: "resp_code (fst (Images_Done e idvar w)) = StatusOK
          \<and> stored (snd (Images_Done e idvar w)) i
              = Some (img\<lparr>Ready := True, UpdatedAt := now e\<rparr>)"
    if x: "exec_err e (FinaliseImage i) = None" and m: "store_err e (ImgMarkAsReady img) = None"
  proof -
    have f: "find (\<lambda>r. ID r = i) (image_rows w) = Some img"
      using assms(3) by (simp add: stored_def)
    show ?thesis
      unfolding Done_ok(1)[OF assms x m] Done_ok(2)[OF assms x m]
      using find_mark_rows[OF f] by (simp add: stored_def)
  qed
  have only: "exec_err e (FinaliseImage i) = None"
    if "\<exists>r. stored (snd (Images_Done e idvar w)) i = Some r \<and> Ready r"
  proof (rule ccontr)
    assume "exec_err e (FinaliseImage i) \<noteq> None"
    from fail[OF this] that assms(4) show False by auto
  qed
  from fail eff ok only show ?thesis by blast
qed

theorem Done_executor_then_ready_witness:
  "Atoi ''1'' = Some 1 \<and> stored world1 1 = Some image1 \<and> \<not> Ready image1
   \<and> exec_err env_exec_fails (FinaliseImage 1) \<noteq> None
   \<and> surfaced (fst (Images_Done env_exec_fails ''1'' world1)) = Some InternalError
   \<and> stored (snd (Images_Done env_exec_fails ''1'' world1)) 1 = Some image1
   \<and> effects (snd (Images_Done env_exec_fails ''1'' world1)) = [Exec (FinaliseImage 1)]
   \<and> resp_code (fst (Images_Done env_ok ''1'' world1)) = StatusOK
   \<and> stored (snd (Images_Done env_ok ''1'' world1)) 1
       = Some (image1\<lparr>Ready := True, UpdatedAt := timestamp\<rparr>)
   \<and> effects (snd (Images_Done env_ok ''1'' world1))
       = [Exec (FinaliseImage 1), Store (ImgMarkAsReady image1)]"
proof -
  have a: "Atoi ''1'' = Some 1"
    by (simp add: Atoi_def is_digit_def digit_value_def)
  have s: "stored world1 1 = Some image1"
    by (simp add: stored_def world1_def image1_def)
  have r: "\<not> Ready image1" by (simp add: image1_def)
  have g1: "store_err env_exec_fails (ImgGet 1) = None"
    by (simp add: env_exec_fails_def env_ok_def)
  have g2: "store_err env_ok (ImgGet 1) = None" by (simp add: env_ok_def)
  have x1: "exec_err env_exec_fails (FinaliseImage 1) \<noteq> None"
    by (simp add: env_exec_fails_def env_ok_def)
  have x2: "exec_err env_ok (FinaliseImage 1) = None \<and> store_err env_ok (ImgMarkAsReady image1) = None
     \<and> now env_ok = timestamp \<and> effects world1 = []"
    by (simp add: env_ok_def world1_def)
  show ?thesis
    using Done_executor_then_ready[OF a g1 s r] Done_executor_then_ready[OF a g2 s r]
      a s r x1 x2 by simp
qed

text \<open>
  C4, as the specification has it: Finalise on an Image that is already ready returns
  Conflict. It does not. For the ready Image 1 the handler answers 400, which is
  BadRequest.
\<close>

theorem Done_on_ready_image_is_not_Conflict:
  "stored world1_ready 1 = Some image1_ready \<and> Ready image1_ready
   \<and> resp_code (fst (Images_Done env_ok ''1'' world1_ready)) = StatusBadRequest
   \<and> surfaced (fst (Images_Done env_ok ''1'' world1_ready)) = Some BadRequest
   \<and> surfaced (fst (Images_Done env_ok ''1'' world1_ready)) \<noteq> Some Conflict"
proof -
  have a: "Atoi ''1'' = Some 1"
    by (simp add: Atoi_def is_digit_def digit_value_def)
  have s: "stored world1_ready 1 = Some image1_ready"
    by (simp add: stored_def world1_ready_def world1_def image1_ready_def image1_def)
  have r: "Ready image1_ready" by (simp add: image1_ready_def)
  have g: "store_err env_ok (ImgGet 1) = None" by (simp add: env_ok_def)
  show ?thesis
    unfolding Done_ready[OF a g s r]
    using s r by (simp add: resp_code_http_Error surfaced_BadRequest)
qed

text \<open>
  C4, amended. For an Image whose \<open>ready\<close> is already true, Finalise answers
  \<^verbatim>\<open>400 image is already finalised\<close> (BadRequest) and leaves the world as it was: no
  Executor call is issued and the Store is unchanged. So after a Finalise that succeeded,
  a second Finalise of the same Image, in any environment whose lookup works, is rejected
  the same way and the Executor's finalisation has been called once in all.
\<close>

theorem Done_on_ready_image:
  assumes "Atoi idvar = Some i" and "store_err e (ImgGet i) = None" and "stored w i = Some img"
  shows "(Ready img \<longrightarrow>
            Images_Done e idvar w
              = (http_Error NewRecorder ''image is already finalised'' StatusBadRequest, w)
          \<and> surfaced (fst (Images_Done e idvar w)) = Some BadRequest
          \<and> effects (snd (Images_Done e idvar w)) = effects w
          \<and> image_rows (snd (Images_Done e idvar w)) = image_rows w)
       \<and> (\<not> Ready img \<and> resp_code (fst (Images_Done e idvar w)) = StatusOK
          \<and> store_err e' (ImgGet i) = None \<longrightarrow>
            surfaced (fst (Images_Done e' idvar (snd (Images_Done e idvar w)))) = Some BadRequest
          \<and> snd (Images_Done e' idvar (snd (Images_Done e idvar w))) = snd (Images_Done e idvar w)
          \<and> effects (snd (Images_Done e' idvar (snd (Images_Done e idvar w))))
              = effects w @ [Exec (FinaliseImage i), Store (ImgMarkAsReady img)])"
proof (intro conjI impI)
  assume r: "Ready img"
  note D = Done_ready[OF assms r]
  show "Images_Done e idvar w
          = (http_Error NewRecorder ''image is already finalised'' StatusBadRequest, w)"
    by (rule D)
  show "surfaced (fst (Images_Done e idvar w)) = Some BadRequest"
    unfolding D by (simp add: resp_code_http_Error surfaced_BadRequest)
  show "effects (snd (Images_Done e idvar w)) = effects w" unfolding D by simp
  show "image_rows (snd (Images_Done e idvar w)) = image_rows w" unfolding D by simp
next
  assume h: "\<not> Ready img \<and> resp_code (fst (Images_Done e idvar w)) = StatusOK
          \<and> store_err e' (ImgGet i) = None"
  then have nr: "\<not> Ready img" and ok: "resp_code (fst (Images_Done e idvar w)) = StatusOK"
    and g': "store_err e' (ImgGet i) = None" by simp_all
  have x: "exec_err e (FinaliseImage i) = None"
  proof (cases "exec_err e (FinaliseImage i)")
    case (Some msg)
    from ok show ?thesis
      unfolding Done_exec_fails[OF assms nr Some]
      by (simp add: resp_code_http_Error StatusOK_def StatusInternalServerError_def)
  qed simp
  have m: "store_err e (ImgMarkAsReady img) = None"
  proof (cases "store_err e (ImgMarkAsReady img)")
    case (Some msg)
    from ok show ?thesis
      unfolding Done_mark_fails[OF assms nr x Some]
      by (simp add: resp_code_http_Error StatusOK_def StatusInternalServerError_def)
  qed simp
  define w1 where "w1 = snd (Images_Done e idvar w)"
  have w1: "w1 = (issue (Store (ImgMarkAsReady img)) (issue (Exec (FinaliseImage i)) w))
             \<lparr>image_rows := mark_rows i (now e) (image_rows w)\<rparr>"
    unfolding w1_def by (rule Done_ok(1)[OF assms nr x m])
  have f: "find (\<lambda>r. ID r = i) (image_rows w) = Some img"
    using assms(3) by (simp add: stored_def)
  have s1: "stored w1 i = Some (img\<lparr>Ready := True, UpdatedAt := now e\<rparr>)"
    unfolding w1 using find_mark_rows[OF f] by (simp add: stored_def)
  have r1: "Ready (img\<lparr>Ready := True, UpdatedAt := now e\<rparr>)" by simp
  note D = Done_ready[OF assms(1) g' s1 r1]
  have e1: "effects w1 = effects w @ [Exec (FinaliseImage i), Store (ImgMarkAsReady img)]"
    unfolding w1 by (simp add: issue_simps)
  show "surfaced (fst (Images_Done e' idvar (snd (Images_Done e idvar w)))) = Some BadRequest"
    unfolding w1_def[symmetric] D by (simp add: resp_code_http_Error surfaced_BadRequest)
  show "snd (Images_Done e' idvar (snd (Images_Done e idvar w))) = snd (Images_Done e idvar w)"
    unfolding w1_def[symmetric] D by simp
  show "effects (snd (Images_Done e' idvar (snd (Images_Done e idvar w))))
              = effects w @ [Exec (FinaliseImage i), Store (ImgMarkAsReady img)]"
    unfolding w1_def[symmetric] D using e1 by simp
qed

theorem Done_on_ready_image_witness:
  "Atoi ''1'' = Some 1 \<and> stored world1_ready 1 = Some image1_ready \<and> Ready image1_ready
   \<and> Images_Done env_exec_fails ''1'' world1_ready
       = (http_Error NewRecorder ''image is already finalised'' StatusBadRequest, world1_ready)
   \<and> surfaced (fst (Images_Done env_exec_fails ''1'' world1_ready)) = Some BadRequest
   \<and> stored world1 1 = Some image1 \<and> \<not> Ready image1
   \<and> resp_code (fst (Images_Done env_ok ''1'' world1)) = StatusOK
   \<and> surfaced (fst (Images_Done env_ok ''1'' (snd (Images_Done env_ok ''1'' world1))))
       = Some BadRequest
   \<and> effects (snd (Images_Done env_ok ''1'' (snd (Images_Done env_ok ''1'' world1))))
       = [Exec (FinaliseImage 1), Store (ImgMarkAsReady image1)]"
proof -
  have a: "Atoi ''1'' = Some 1"
    by (simp add: Atoi_def is_digit_def digit_value_def)
  have s: "stored world1_ready 1 = Some image1_ready"
    by (simp add: stored_def world1_ready_def world1_def image1_ready_def image1_def)
  have r: "Ready image1_ready" by (simp add: image1_ready_def)
  have g: "store_err env_exec_fails (ImgGet 1) = None"
    by (simp add: env_exec_fails_def env_ok_def)
  have s': "stored world1 1 = Some image1"
    by (simp add: stored_def world1_def image1_def)
  have r': "\<not> Ready image1" by (simp add: image1_def)
  have g': "store_err env_ok (ImgGet 1) = None" by (simp add: env_ok_def)
  have x: "exec_err env_ok (FinaliseImage 1) = None"
    and m: "store_err env_ok (ImgMarkAsReady image1) = None"
    by (simp_all add: env_ok_def)
  have ok: "resp_code (fst (Images_Done env_ok ''1'' world1)) = StatusOK"
    by (rule Done_ok(2)[OF a g' s' r' x m])
  have e0: "effects world1 = []" by (simp add: world1_def)
  have A: "Images_Done env_exec_fails ''1'' world1_ready
       = (http_Error NewRecorder ''image is already finalised'' StatusBadRequest, world1_ready)"
    "surfaced (fst (Images_Done env_exec_fails ''1'' world1_ready)) = Some BadRequest"
    using Done_on_ready_image[OF a g s, of env_ok] r by blast+
  have B: "surfaced (fst (Images_Done env_ok ''1'' (snd (Images_Done env_ok ''1'' world1))))
       = Some BadRequest"
    "effects (snd (Images_Done env_ok ''1'' (snd (Images_Done env_ok ''1'' world1))))
       = effects world1 @ [Exec (FinaliseImage 1), Store (ImgMarkAsReady image1)]"
    using Done_on_ready_image[OF a g' s', of env_ok] r' ok g' by blast+
  from A B(1) B(2)[unfolded e0 append_Nil] a s r s' r' ok show ?thesis by blast
qed

lemma Done_effects:
  assumes "Atoi idvar = Some i" and "store_err e (ImgGet i) = None"
    and "stored w i = Some img" and "\<not> Ready img"
  shows "effects (snd (Images_Done e idvar w)) =
           effects w @ Exec (FinaliseImage i)
             # (if exec_err e (FinaliseImage i) = None then [Store (ImgMarkAsReady img)] else [])"
proof (cases "exec_err e (FinaliseImage i)")
  case None
  show ?thesis
  proof (cases "store_err e (ImgMarkAsReady img)")
    case n: None
    show ?thesis
      unfolding Done_ok(1)[OF assms None n] using None by (simp add: issue_simps)
  next
    case (Some msg)
    show ?thesis
      unfolding Done_mark_fails[OF assms None Some] using None
      by (simp add: issue_simps log_Print_simps)
  qed
next
  case (Some msg)
  show ?thesis
    unfolding Done_exec_fails[OF assms Some] using Some
    by (simp add: issue_simps log_Print_simps)
qed

text \<open>
  C10. When the Executor's finalisation has succeeded and the Store then fails to flip
  \<open>ready\<close>, Finalise answers InternalError; the stored record is the same, still unready,
  although the Executor call has been issued. A retry, in any environment whose lookup
  works, therefore calls the Executor's finalisation a second time.
\<close>

theorem Done_mark_failure_then_retry:
  assumes "Atoi idvar = Some i" and "store_err e (ImgGet i) = None"
    and "stored w i = Some img" and "\<not> Ready img"
    and "exec_err e (FinaliseImage i) = None"
    and "store_err e (ImgMarkAsReady img) = Some msg"
    and "store_err e' (ImgGet i) = None"
  shows "surfaced (fst (Images_Done e idvar w)) = Some InternalError
       \<and> image_rows (snd (Images_Done e idvar w)) = image_rows w
       \<and> stored (snd (Images_Done e idvar w)) i = Some img
       \<and> effects (snd (Images_Done e idvar w))
           = effects w @ [Exec (FinaliseImage i), Store (ImgMarkAsReady img)]
       \<and> effects (snd (Images_Done e' idvar (snd (Images_Done e idvar w))))
           = effects w @ [Exec (FinaliseImage i), Store (ImgMarkAsReady img), Exec (FinaliseImage i)]
               @ (if exec_err e' (FinaliseImage i) = None then [Store (ImgMarkAsReady img)] else [])"
proof -
  define w1 where "w1 = snd (Images_Done e idvar w)"
  note D = Done_mark_fails[OF assms(1-6)]
  have w1: "w1 = log_Print msg (issue (Store (ImgMarkAsReady img)) (issue (Exec (FinaliseImage i)) w))"
    unfolding w1_def D by simp
  have s1: "stored w1 i = Some img"
    unfolding w1 by (simp add: issue_simps log_Print_simps assms(3))
  have e1: "effects w1 = effects w @ [Exec (FinaliseImage i), Store (ImgMarkAsReady img)]"
    unfolding w1 by (simp add: issue_simps log_Print_simps)
  have r1: "image_rows w1 = image_rows w"
    unfolding w1 by (simp add: issue_simps log_Print_simps)
  have c: "surfaced (fst (Images_Done e idvar w)) = Some InternalError"
    unfolding D by (simp add: surfaced_InternalError resp_code_http_Error)
  have e2: "effects (snd (Images_Done e' idvar w1)) =
           effects w1 @ Exec (FinaliseImage i)
             # (if exec_err e' (FinaliseImage i) = None then [Store (ImgMarkAsReady img)] else [])"
    by (rule Done_effects[OF assms(1) assms(7) s1 assms(4)])
  show ?thesis
    using c s1 e1 r1 e2 unfolding w1_def by simp
qed

theorem Done_mark_failure_then_retry_witness:
  "Atoi ''1'' = Some 1 \<and> stored world1 1 = Some image1 \<and> \<not> Ready image1
   \<and> exec_err env_write_fails (FinaliseImage 1) = None
   \<and> store_err env_write_fails (ImgMarkAsReady image1) = Some ''connection reset''
   \<and> surfaced (fst (Images_Done env_write_fails ''1'' world1)) = Some InternalError
   \<and> stored (snd (Images_Done env_write_fails ''1'' world1)) 1 = Some image1
   \<and> effects (snd (Images_Done env_write_fails ''1'' world1))
       = [Exec (FinaliseImage 1), Store (ImgMarkAsReady image1)]
   \<and> effects (snd (Images_Done env_ok ''1'' (snd (Images_Done env_write_fails ''1'' world1))))
       = [Exec (FinaliseImage 1), Store (ImgMarkAsReady image1),
          Exec (FinaliseImage 1), Store (ImgMarkAsReady image1)]"
proof -
  have a: "Atoi ''1'' = Some 1"
    by (simp add: Atoi_def is_digit_def digit_value_def)
  have s: "stored world1 1 = Some image1"
    by (simp add: stored_def world1_def image1_def)
  have r: "\<not> Ready image1" by (simp add: image1_def)
  have g: "store_err env_write_fails (ImgGet 1) = None"
    by (simp add: env_write_fails_def env_ok_def)
  have x: "exec_err env_write_fails (FinaliseImage 1) = None"
    by (simp add: env_write_fails_def env_ok_def)
  have m: "store_err env_write_fails (ImgMarkAsReady image1) = Some ''connection reset''"
    by (simp add: env_write_fails_def env_ok_def)
  have g': "store_err env_ok (ImgGet 1) = None" and x': "exec_err env_ok (FinaliseImage 1) = None"
    by (simp_all add: env_ok_def)
  have e0: "effects world1 = []" by (simp add: world1_def)
  show ?thesis
    using Done_mark_failure_then_retry[OF a g s r x m g'] a s r x m x' e0 by simp
qed

section \<open>Create\<close>

lemma ImageStore_Create_ok:
  "store_err e (ImgCreate img) = None \<Longrightarrow>
   ImageStore_Create e img w =
     (Inr (img\<lparr>ID := image_seq w, CreatedAt := now e, UpdatedAt := now e\<rparr>),
      (issue (Store (ImgCreate img)) w)
        \<lparr>image_rows := image_rows w @ [img\<lparr>ID := image_seq w, CreatedAt := now e, UpdatedAt := now e\<rparr>],
         image_seq := image_seq w + 1\<rparr>)"
  by (simp add: ImageStore_Create_def Let_def)

lemma ImageStore_Create_fails:
  "store_err e (ImgCreate img) = Some msg \<Longrightarrow>
   ImageStore_Create e img w = (Inl msg, issue (Store (ImgCreate img)) w)"
  by (simp add: ImageStore_Create_def Let_def)

text \<open>
  C5. When the Store accepts the record, Create has persisted a new Image with
  \<open>ready = false\<close> under the next identifier and then called the Executor to create the
  subvolume of that identifier, in this order and with no further effect. If the Executor
  fails the response is InternalError, and the record is in the Store all the same: no
  delete is issued.
\<close>

theorem Create_persists_then_materializes:
  assumes "store_err e (ImgCreate (NewImage (req_BackedUpAt req))) = None"
  shows "image_rows (snd (Images_Create e (Inr req) w))
           = image_rows w @ [(NewImage (req_BackedUpAt req))
                               \<lparr>ID := image_seq w, CreatedAt := now e, UpdatedAt := now e\<rparr>]
       \<and> \<not> Ready ((NewImage (req_BackedUpAt req))
                     \<lparr>ID := image_seq w, CreatedAt := now e, UpdatedAt := now e\<rparr>)
       \<and> effects (snd (Images_Create e (Inr req) w))
           = effects w @ [Store (ImgCreate (NewImage (req_BackedUpAt req))),
                          Exec (CreateBtrfsSubvolume (image_seq w))]
       \<and> (exec_err e (CreateBtrfsSubvolume (image_seq w)) \<noteq> None \<longrightarrow>
            surfaced (fst (Images_Create e (Inr req) w)) = Some InternalError)
       \<and> (exec_err e (CreateBtrfsSubvolume (image_seq w)) = None \<longrightarrow>
            resp_code (fst (Images_Create e (Inr req) w)) = StatusCreated)"
proof (cases "exec_err e (CreateBtrfsSubvolume (image_seq w))")
  case None
  have D: "Images_Create e (Inr req) w =
     (case Encode e (ImageJSON ((NewImage (req_BackedUpAt req))
                       \<lparr>ID := image_seq w, CreatedAt := now e, UpdatedAt := now e\<rparr>))
             (WriteHeader StatusCreated NewRecorder) of
        (True, rw) \<Rightarrow>
          (http_Error rw ''json encoding failed'' StatusInternalServerError,
           issue (Exec (CreateBtrfsSubvolume (image_seq w)))
            ((issue (Store (ImgCreate (NewImage (req_BackedUpAt req)))) w)
              \<lparr>image_rows := image_rows w @ [(NewImage (req_BackedUpAt req))
                               \<lparr>ID := image_seq w, CreatedAt := now e, UpdatedAt := now e\<rparr>],
               image_seq := image_seq w + 1\<rparr>))
      | (False, rw) \<Rightarrow>
          (rw, issue (Exec (CreateBtrfsSubvolume (image_seq w)))
            ((issue (Store (ImgCreate (NewImage (req_BackedUpAt req)))) w)
              \<lparr>image_rows := image_rows w @ [(NewImage (req_BackedUpAt req))
                               \<lparr>ID := image_seq w, CreatedAt := now e, UpdatedAt := now e\<rparr>],
               image_seq := image_seq w + 1\<rparr>)))"
    using None by (simp add: Images_Create_def ImageStore_Create_ok[OF assms] Executor_call_def)
  show ?thesis
    unfolding D snd_encoded resp_code_encoded using None
    by (simp add: issue_simps NewImage_def issue_def)
next
  case (Some msg)
  have D: "Images_Create e (Inr req) w =
     (http_Error NewRecorder (''error creating btrfs subvolume: '' @ msg) StatusInternalServerError,
      issue (Exec (CreateBtrfsSubvolume (image_seq w)))
            ((issue (Store (ImgCreate (NewImage (req_BackedUpAt req)))) w)
              \<lparr>image_rows := image_rows w @ [(NewImage (req_BackedUpAt req))
                               \<lparr>ID := image_seq w, CreatedAt := now e, UpdatedAt := now e\<rparr>],
               image_seq := image_seq w + 1\<rparr>))"
    using Some by (simp add: Images_Create_def ImageStore_Create_ok[OF assms] Executor_call_def)
  show ?thesis
    unfolding D using Some
    by (simp add: issue_def NewImage_def surfaced_InternalError resp_code_http_Error)
qed

theorem Create_persists_then_materializes_witness:
  "store_err env_exec_fails (ImgCreate (NewImage timestamp)) = None
   \<and> exec_err env_exec_fails (CreateBtrfsSubvolume 2) \<noteq> None
   \<and> surfaced (fst (Images_Create env_exec_fails (Inr (createImageRequest timestamp)) world1))
       = Some InternalError
   \<and> image_rows (snd (Images_Create env_exec_fails (Inr (createImageRequest timestamp)) world1))
       = [image1, \<lparr>ID = 2, BackedUpAt = timestamp, Anon = [], Ready = False,
                   CreatedAt = timestamp, UpdatedAt = timestamp\<rparr>]
   \<and> effects (snd (Images_Create env_exec_fails (Inr (createImageRequest timestamp)) world1))
       = [Store (ImgCreate (NewImage timestamp)), Exec (CreateBtrfsSubvolume 2)]
   \<and> resp_code (fst (Images_Create env_ok (Inr (createImageRequest timestamp)) world1))
       = StatusCreated"
proof -
  have c: "store_err env_exec_fails (ImgCreate (NewImage (req_BackedUpAt (createImageRequest timestamp)))) = None"
    by (simp add: env_exec_fails_def env_ok_def)
  have c': "store_err env_ok (ImgCreate (NewImage (req_BackedUpAt (createImageRequest timestamp)))) = None"
    by (simp add: env_ok_def)
  have x: "exec_err env_exec_fails (CreateBtrfsSubvolume 2) \<noteq> None"
    and x': "exec_err env_ok (CreateBtrfsSubvolume 2) = None"
    and n: "now env_exec_fails = timestamp"
    by (simp_all add: env_exec_fails_def env_ok_def)
  have w: "image_seq world1 = 2" "image_rows world1 = [image1]" "effects world1 = []"
    by (simp_all add: world1_def)
  show ?thesis
    using Create_persists_then_materializes[OF c, of world1]
      Create_persists_then_materializes[OF c', of world1] c x x' n w
    by (simp add: NewImage_def)
qed

section \<open>Malformed input\<close>

text \<open>
  C9, at the input where the code departs from it: a request body that does not decode
  makes Create answer 500, InternalError, not BadRequest. (The world is untouched, as the
  claim has it.)
\<close>

theorem Create_undecodable_body_is_InternalError:
  "Images_Create e (Inl err) w
     = (http_Error NewRecorder (''json decoding failed: '' @ err) StatusInternalServerError, w)
   \<and> surfaced (fst (Images_Create e (Inl err) w)) = Some InternalError
   \<and> surfaced (fst (Images_Create e (Inl err) w)) \<noteq> Some BadRequest"
  by (simp add: Images_Create_def surfaced_InternalError resp_code_http_Error)

text \<open>The other half of C9 holds: an identifier that is not an integer is a BadRequest.\<close>

lemma Done_malformed_id:
  "Atoi idvar = None \<Longrightarrow>
     Images_Done e idvar w = (http_Error NewRecorder ''invalid id'' StatusBadRequest, w)
   \<and> surfaced (fst (Images_Done e idvar w)) = Some BadRequest"
  by (simp add: Images_Done_def surfaced_BadRequest resp_code_http_Error)

lemma Atoi_bad_id: "Atoi ''bad_id'' = None"
  by (simp add: Atoi_def is_digit_def)

section \<open>Instance Create\<close>


lemma Get_absent:
  "stored w i = None \<Longrightarrow> \<exists>err. ImageStore_Get e i w = Inl err"
  by (simp add: ImageStore_Get_def stored_def split: option.splits)

text \<open>
  C8. Instance Create answers NotFound when no Image record is kept under the
  identifier, and Unprocessable when the Image exists and is not ready; in both cases the
  world is left as it was, so no Executor call has been issued.
\<close>

theorem Instances_Create_preconditions:
  "(stored w i = None \<longrightarrow>
      Instances_Create e (Some p) i w = (render e (StatusNotFound, imageNotFoundError), w)
    \<and> surfaced (fst (Instances_Create e (Some p) i w)) = Some NotFound)
   \<and> (store_err e (ImgGet i) = None \<and> stored w i = Some img \<and> \<not> Ready img \<longrightarrow>
      Instances_Create e (Some p) i w = (render e (StatusUnprocessableEntity, unreadyImageError), w)
    \<and> surfaced (fst (Instances_Create e (Some p) i w)) = Some Unprocessable)"
proof (intro conjI impI)
  assume "stored w i = None"
  then obtain err where g: "ImageStore_Get e i w = Inl err" using Get_absent by blast
  then show c: "Instances_Create e (Some p) i w = (render e (StatusNotFound, imageNotFoundError), w)"
    by (simp add: Instances_Create_def)
  show "surfaced (fst (Instances_Create e (Some p) i w)) = Some NotFound"
    unfolding c by (simp add: surfaced_NotFound resp_code_render)
next
  assume h: "store_err e (ImgGet i) = None \<and> stored w i = Some img \<and> \<not> Ready img"
  then have g: "ImageStore_Get e i w = Inr img" by (simp add: Get_stored)
  with h show c: "Instances_Create e (Some p) i w
      = (render e (StatusUnprocessableEntity, unreadyImageError), w)"
    by (simp add: Instances_Create_def)
  show "surfaced (fst (Instances_Create e (Some p) i w)) = Some Unprocessable"
    unfolding c by (simp add: surfaced_Unprocessable resp_code_render)
qed

theorem Instances_Create_preconditions_witness:
  "stored world1 999 = None
   \<and> surfaced (fst (Instances_Create env_ok (Some Ordinary) 999 world1)) = Some NotFound
   \<and> snd (Instances_Create env_ok (Some Ordinary) 999 world1) = world1
   \<and> stored world1 1 = Some image1 \<and> \<not> Ready image1
   \<and> surfaced (fst (Instances_Create env_ok (Some Ordinary) 1 world1)) = Some Unprocessable
   \<and> snd (Instances_Create env_ok (Some Ordinary) 1 world1) = world1"
proof -
  have n: "stored world1 999 = None"
    by (simp add: stored_def world1_def image1_def)
  have s: "stored world1 1 = Some image1"
    by (simp add: stored_def world1_def image1_def)
  have r: "\<not> Ready image1" by (simp add: image1_def)
  have g: "store_err env_ok (ImgGet 1) = None" by (simp add: env_ok_def)
  have A: "Instances_Create env_ok (Some Ordinary) 999 world1
             = (render env_ok (StatusNotFound, imageNotFoundError), world1)"
    "surfaced (fst (Instances_Create env_ok (Some Ordinary) 999 world1)) = Some NotFound"
    using Instances_Create_preconditions[where w = world1 and i = 999 and e = env_ok and p = Ordinary] n by blast+
  have B: "Instances_Create env_ok (Some Ordinary) 1 world1
             = (render env_ok (StatusUnprocessableEntity, unreadyImageError), world1)"
    "surfaced (fst (Instances_Create env_ok (Some Ordinary) 1 world1)) = Some Unprocessable"
    using Instances_Create_preconditions[where w = world1 and i = 1 and e = env_ok and p = Ordinary
        and img = image1] s r g by blast+
  have A': "snd (Instances_Create env_ok (Some Ordinary) 999 world1) = world1"
    unfolding A(1) by simp
  have B': "snd (Instances_Create env_ok (Some Ordinary) 1 world1) = world1"
    unfolding B(1) by simp
  from n s r A(2) B(2) A' B' show ?thesis by blast
qed

section \<open>Image Destroy by an ordinary principal\<close>



lemma Image_Destroy_ok:
  assumes "store_err e (ImgGet i) = None" and "stored w i = Some img"
    and "\<not> (\<exists>inst \<in> set (instance_rows w). Instance_ImageID inst = i)"
    and "exec_err e (DestroyImage i) = None" and "store_err e (ImgDestroy img) = None"
  shows "Image_Destroy e i w
           = (None, (issue (Store (ImgDestroy img)) (issue (Exec (DestroyImage i)) w))
                      \<lparr>image_rows := filter (\<lambda>r. ID r \<noteq> i) (image_rows w)\<rparr>)"
  using assms stored_ID[OF assms(2)]
  by (simp add: Image_Destroy_def Get_stored Executor_call_def ImageStore_Destroy_def Let_def
      issue_simps)

lemma find_filter_other: "find (\<lambda>r. ID r = i) (filter (\<lambda>r. ID r \<noteq> i) rows) = None"
  by (induction rows) auto





section \<open>Cascade destroy\<close>

lemma find_instance:
  "distinct (map Instance_ID rows) \<Longrightarrow> x \<in> set rows \<Longrightarrow>
   find (\<lambda>r. Instance_ID r = Instance_ID x) rows = Some x"
  by (induction rows) (auto simp: image_iff)

lemma InstanceStore_Get_ID: "InstanceStore_Get e j w = Found inst \<Longrightarrow> Instance_ID inst = j"
proof -
  have "find (\<lambda>r. Instance_ID r = j) rows = Some r \<Longrightarrow> Instance_ID r = j" for rows r
    by (induction rows) (auto split: if_splits)
  then show "InstanceStore_Get e j w = Found inst \<Longrightarrow> Instance_ID inst = j"
    by (auto simp: InstanceStore_Get_def split: option.splits)
qed

lemma InstanceStore_Get_row:
  "store_err e (InstGet (Instance_ID x)) = None \<Longrightarrow> distinct (map Instance_ID (instance_rows w)) \<Longrightarrow>
   x \<in> set (instance_rows w) \<Longrightarrow> InstanceStore_Get e (Instance_ID x) w = Found x"
  by (simp add: InstanceStore_Get_def find_instance)

lemma Instance_Destroy_ok:
  assumes "InstanceStore_Get e (Instance_ID x) w = Found x"
    and "exec_err e (DestroyInstance (Instance_ID x)) = None"
    and "store_err e (InstDestroy x) = None"
  shows "Instance_Destroy e (Instance_ID x) w =
    (None, w\<lparr>instance_rows := filter (\<lambda>r. Instance_ID r \<noteq> Instance_ID x) (instance_rows w),
             effects := effects w @ destroy_effects [x]\<rparr>)"
  using assms
  by (simp add: Instance_Destroy_def Executor_call_def InstanceStore_Destroy_def Let_def
      issue_def destroy_effects_def)

lemma Instance_Destroy_attempt:
  assumes "distinct (map Instance_ID (instance_rows w))" and "x \<in> set (instance_rows w)"
    and "destroy_fails e x"
  shows "Instance_Destroy e (Instance_ID x) w =
    (Some (StatusInternalServerError, internalServerError),
     w\<lparr>effects := effects w @ attempt e x\<rparr>)"
proof (cases "store_err e (InstGet (Instance_ID x))")
  case (Some msg)
  then have "InstanceStore_Get e (Instance_ID x) w = Failed msg"
    by (simp add: InstanceStore_Get_def)
  with Some show ?thesis by (simp add: Instance_Destroy_def attempt_def)
next
  case None
  then have g: "InstanceStore_Get e (Instance_ID x) w = Found x"
    using assms(1,2) by (rule InstanceStore_Get_row)
  show ?thesis
  proof (cases "exec_err e (DestroyInstance (Instance_ID x))")
    case (Some msg)
    with None g show ?thesis
      by (simp add: Instance_Destroy_def Executor_call_def attempt_def issue_def)
  next
    case n: None
    with None assms(3) obtain msg where "store_err e (InstDestroy x) = Some msg"
      by (auto simp: destroy_fails_def)
    with None n g show ?thesis
      by (simp add: Instance_Destroy_def Executor_call_def InstanceStore_Destroy_def Let_def
          attempt_def issue_def)
  qed
qed

lemma instance_effect_lists:
  "list_all instance_effect (destroy_effects xs)"
  "list_all instance_effect (attempt e x)"
  by (induction xs) (simp_all add: destroy_effects_def attempt_def instance_effect_def)

lemma instances_step_refl: "instances_step w w"
proof -
  have "instance_rows w = filter (\<lambda>r. True) (instance_rows w)" by simp
  then have "\<exists>P. instance_rows w = filter P (instance_rows w)" by blast
  moreover have "\<exists>new. effects w = effects w @ new \<and> list_all instance_effect new"
    by (rule exI[of _ "[]"]) simp
  ultimately show ?thesis unfolding instances_step_def by simp
qed

lemma instances_step_trans:
  assumes "instances_step w w1" and "instances_step w1 w2"
  shows "instances_step w w2"
proof -
  from assms obtain n1 n2 P1 P2 where
    e1: "effects w1 = effects w @ n1" "list_all instance_effect n1"
    and e2: "effects w2 = effects w1 @ n2" "list_all instance_effect n2"
    and r1: "instance_rows w1 = filter P1 (instance_rows w)"
    and r2: "instance_rows w2 = filter P2 (instance_rows w1)"
    unfolding instances_step_def by blast
  have "effects w2 = effects w @ (n1 @ n2) \<and> list_all instance_effect (n1 @ n2)"
    using e1 e2 by simp
  then have E: "\<exists>new. effects w2 = effects w @ new \<and> list_all instance_effect new" by blast
  have "instance_rows w2 = filter (\<lambda>x. P1 x \<and> P2 x) (instance_rows w)"
    using r1 r2 by (simp add: conj_commute)
  then have R: "\<exists>P. instance_rows w2 = filter P (instance_rows w)" by blast
  from assms E R show ?thesis unfolding instances_step_def by simp
qed

lemma Instance_Destroy_step:
  assumes "Instance_Destroy e j w = (r, w')"
  shows "instances_step w w' \<and> (r \<noteq> None \<longrightarrow> instance_rows w' = instance_rows w)
       \<and> (r = None \<longrightarrow>
            instance_rows w' = filter (\<lambda>x. Instance_ID x \<noteq> j) (instance_rows w))"
proof (cases "InstanceStore_Get e j w")
  case Absent
  with assms have "w' = w" "r = Some (StatusNotFound, notFoundError)"
    by (auto simp: Instance_Destroy_def)
  then show ?thesis using instances_step_refl by simp
next
  case (Failed err)
  with assms have "w' = w" "r = Some (StatusInternalServerError, internalServerError)"
    by (auto simp: Instance_Destroy_def)
  then show ?thesis using instances_step_refl by simp
next
  case (Found inst)
  note Inr = Found
  then have j: "Instance_ID inst = j" by (rule InstanceStore_Get_ID)
  show ?thesis
  proof (cases "exec_err e (DestroyInstance (Instance_ID inst))")
    case (Some msg)
    with Inr assms have w': "w' = issue (Exec (DestroyInstance (Instance_ID inst))) w"
      and r: "r = Some (StatusInternalServerError, internalServerError)"
      by (auto simp: Instance_Destroy_def Executor_call_def)
    have "effects w' = effects w @ [Exec (DestroyInstance (Instance_ID inst))]
        \<and> list_all instance_effect [Exec (DestroyInstance (Instance_ID inst))]"
      unfolding w' by (simp add: issue_simps instance_effect_def)
    then have E: "\<exists>new. effects w' = effects w @ new \<and> list_all instance_effect new" by blast
    have "instance_rows w' = filter (\<lambda>r. True) (instance_rows w)"
      unfolding w' by (simp add: issue_simps)
    then have R: "\<exists>P. instance_rows w' = filter P (instance_rows w)" by blast
    show ?thesis
      unfolding instances_step_def using E R r unfolding w' by (simp add: issue_simps)
  next
    case None
    let ?w1 = "issue (Store (InstDestroy inst)) (issue (Exec (DestroyInstance (Instance_ID inst))) w)"
    have new: "list_all instance_effect
        [Exec (DestroyInstance (Instance_ID inst)), Store (InstDestroy inst)]"
      by (simp add: instance_effect_def)
    show ?thesis
    proof (cases "store_err e (InstDestroy inst)")
      case (Some msg)
      with None Inr assms have w': "w' = ?w1"
        and r: "r = Some (StatusInternalServerError, internalServerError)"
        by (auto simp: Instance_Destroy_def Executor_call_def InstanceStore_Destroy_def Let_def)
      have "effects w' = effects w @ [Exec (DestroyInstance (Instance_ID inst)), Store (InstDestroy inst)]"
        unfolding w' by (simp add: issue_simps)
      with new have E: "\<exists>new. effects w' = effects w @ new \<and> list_all instance_effect new"
        by blast
      have "instance_rows w' = filter (\<lambda>r. True) (instance_rows w)"
        unfolding w' by (simp add: issue_simps)
      then have R: "\<exists>P. instance_rows w' = filter P (instance_rows w)" by blast
      show ?thesis
        unfolding instances_step_def using E R r unfolding w' by (simp add: issue_simps)
    next
      case n: None
      with None Inr assms have w': "w' = ?w1\<lparr>instance_rows :=
           filter (\<lambda>r. Instance_ID r \<noteq> Instance_ID inst) (instance_rows w)\<rparr>" and r: "r = None"
        by (auto simp: Instance_Destroy_def Executor_call_def InstanceStore_Destroy_def Let_def
            issue_simps)
      have "effects w' = effects w @ [Exec (DestroyInstance (Instance_ID inst)), Store (InstDestroy inst)]"
        unfolding w' by (simp add: issue_simps)
      with new have E: "\<exists>new. effects w' = effects w @ new \<and> list_all instance_effect new"
        by blast
      have "instance_rows w' = filter (\<lambda>r. Instance_ID r \<noteq> Instance_ID inst) (instance_rows w)"
        unfolding w' by simp
      then have R: "\<exists>P. instance_rows w' = filter P (instance_rows w)" by blast
      show ?thesis
        unfolding instances_step_def using E R r j unfolding w' by (simp add: issue_simps)
    qed
  qed
qed

lemma cascade_step: "cascade e todo w = (r, w') \<Longrightarrow> instances_step w w'"
proof (induction todo arbitrary: w)
  case Nil
  then show ?case using instances_step_refl by simp
next
  case (Cons x rest)
  obtain r1 w1 where d: "Instance_Destroy e (Instance_ID x) w = (r1, w1)"
    by (cases "Instance_Destroy e (Instance_ID x) w")
  note s1 = Instance_Destroy_step[OF d, THEN conjunct1]
  show ?case
  proof (cases "r1 = None \<or> (\<exists>f. r1 = Some f \<and> fst f = StatusNotFound)")
    case True
    then have "cascade e (x # rest) w = cascade e rest w1"
      using d by (auto split: option.splits)
    with Cons.prems have "cascade e rest w1 = (r, w')" by simp
    from Cons.IH[OF this] s1 show ?thesis by (rule instances_step_trans[rotated])
  next
    case False
    then have "w' = w1" using d Cons.prems by (auto split: option.splits if_splits)
    with s1 show ?thesis by simp
  qed
qed


lemma cascade_continue:
  assumes "Instance_Destroy e (Instance_ID x) w = (r1, w1)"
    and "r1 = None \<or> (\<exists>f. r1 = Some f \<and> fst f = StatusNotFound)"
  shows "cascade e (x # rest) w = cascade e rest w1"
  using assms by (auto split: option.splits)

lemma cascade_stop:
  assumes "Instance_Destroy e (Instance_ID x) w = (Some f, w1)" and "fst f \<noteq> StatusNotFound"
  shows "cascade e (x # rest) w = (Some (StatusInternalServerError, internalServerError), w1)"
  using assms by simp

lemma cascade_prefix:
  assumes "\<forall>y \<in> set pre. \<not> destroy_fails e y"
    and "distinct (map Instance_ID (instance_rows w))"
    and "set pre \<subseteq> set (instance_rows w)" and "distinct (map Instance_ID pre)"
  shows "cascade e (pre @ rest) w =
    cascade e rest
      (w\<lparr>instance_rows :=
           filter (\<lambda>r. Instance_ID r \<notin> Instance_ID ` set pre) (instance_rows w),
         effects := effects w @ destroy_effects pre\<rparr>)"
  using assms
proof (induction pre arbitrary: w)
  case Nil
  then show ?case by (simp add: destroy_effects_def)
next
  case (Cons x pre)
  let ?w1 = "w\<lparr>instance_rows := filter (\<lambda>r. Instance_ID r \<noteq> Instance_ID x) (instance_rows w),
               effects := effects w @ destroy_effects [x]\<rparr>"
  have nf: "store_err e (InstGet (Instance_ID x)) = None"
    "exec_err e (DestroyInstance (Instance_ID x)) = None" "store_err e (InstDestroy x) = None"
    using Cons.prems(1) by (simp_all add: destroy_fails_def)
  have g: "InstanceStore_Get e (Instance_ID x) w = Found x"
    using Cons.prems nf(1) by (simp add: InstanceStore_Get_row)
  have d: "Instance_Destroy e (Instance_ID x) w = (None, ?w1)"
    using Instance_Destroy_ok[OF g nf(2,3)] by simp
  have c: "cascade e ((x # pre) @ rest) w = cascade e (pre @ rest) ?w1"
    using d by simp
  have p1: "\<forall>y \<in> set pre. \<not> destroy_fails e y" using Cons.prems(1) by simp
  have d1: "distinct (map Instance_ID (instance_rows ?w1))"
    using Cons.prems(2) by (simp add: distinct_map_filter)
  have s1: "set pre \<subseteq> set (instance_rows ?w1)"
    using Cons.prems(3,4) by (auto simp: image_iff)
  have r1: "distinct (map Instance_ID pre)" using Cons.prems(4) by simp
  show ?case
    unfolding c Cons.IH[OF p1 d1 s1 r1]
    by (simp add: destroy_effects_def conj_commute)
qed

lemma cascade_ok:
  assumes "\<forall>c. store_err e c = None" and "\<forall>c. exec_err e c = None"
    and "distinct (map Instance_ID (instance_rows w))"
    and "set todo \<subseteq> set (instance_rows w)" and "distinct (map Instance_ID todo)"
  shows "cascade e todo w =
    (None, w\<lparr>instance_rows :=
               filter (\<lambda>r. Instance_ID r \<notin> Instance_ID ` set todo) (instance_rows w),
             effects := effects w @ destroy_effects todo\<rparr>)"
  using assms(3-5)
proof (induction todo arbitrary: w)
  case Nil
  then show ?case by (simp add: destroy_effects_def)
next
  case (Cons x rest)
  let ?w1 = "w\<lparr>instance_rows := filter (\<lambda>r. Instance_ID r \<noteq> Instance_ID x) (instance_rows w),
               effects := effects w @ destroy_effects [x]\<rparr>"
  have g: "InstanceStore_Get e (Instance_ID x) w = Found x"
    using Cons.prems assms(1) by (simp add: InstanceStore_Get_row)
  have d: "Instance_Destroy e (Instance_ID x) w = (None, ?w1)"
    using Instance_Destroy_ok[OF g] assms(1,2) by simp
  have c: "cascade e (x # rest) w = cascade e rest ?w1"
    using d by simp
  have d1: "distinct (map Instance_ID (instance_rows ?w1))"
    using Cons.prems(1) by (simp add: distinct_map_filter)
  have s1: "set rest \<subseteq> set (instance_rows ?w1)"
    using Cons.prems(2,3) by (auto simp: image_iff)
  have r1: "distinct (map Instance_ID rest)" using Cons.prems(3) by simp
  show ?case
    unfolding c Cons.IH[OF d1 s1 r1]
    by (simp add: destroy_effects_def conj_commute)
qed

lemma distinct_map_insort_key:
  "distinct (map f (insort_key f x xs)) = (f x \<notin> f ` set xs \<and> distinct (map f xs))"
  by (induction xs) (auto simp: set_insort_key)

lemma distinct_map_sort_key: "distinct (map f (sort_key f xs)) = distinct (map f xs)"
  by (induction xs) (simp_all add: distinct_map_insort_key)

lemma dependents_facts:
  "set (dependents i rows) = {x \<in> set rows. Instance_ImageID x = i}"
  "sorted (map Instance_ID (dependents i rows))"
  "length (dependents i rows) = length (filter (\<lambda>x. Instance_ImageID x = i) rows)"
  "distinct (map Instance_ID rows) \<Longrightarrow> distinct (map Instance_ID (dependents i rows))"
  by (auto simp: dependents_def distinct_map_sort_key distinct_map_filter)

lemma filter_dependents:
  assumes "distinct (map Instance_ID rows)"
  shows "filter (\<lambda>r. Instance_ID r \<notin> Instance_ID ` set (dependents i rows)) rows
           = filter (\<lambda>x. Instance_ImageID x \<noteq> i) rows"
proof (rule filter_cong[OF refl])
  fix r assume r: "r \<in> set rows"
  have "Instance_ImageID r = i" if "Instance_ID r \<in> Instance_ID ` set (dependents i rows)"
  proof -
    from that obtain d where d: "d \<in> set rows" "Instance_ImageID d = i" "Instance_ID r = Instance_ID d"
      by (auto simp: dependents_facts(1))
    from assms r d(1,3) have "r = d" by (auto simp: distinct_map inj_on_def)
    with d(2) show ?thesis by simp
  qed
  moreover have "Instance_ID r \<in> Instance_ID ` set (dependents i rows)" if "Instance_ImageID r = i"
    using that r by (auto simp: dependents_facts(1))
  ultimately show "(Instance_ID r \<notin> Instance_ID ` set (dependents i rows)) = (Instance_ImageID r \<noteq> i)"
    by blast
qed

lemma dependents_world3: "dependents 1 (instance_rows world3) = [instance1, instance3]"
  by (simp add: dependents_def world3_def instance1_def instance2_def instance3_def)

lemma world3_facts:
  "stored world3 1 = Some image1_ready"
  "distinct (map Instance_ID (instance_rows world3))"
  "instance_rows world3 = [instance3, instance2, instance1]"
  "image_rows world3 = [image1_ready]"
  "effects world3 = []"
  by (simp_all add: stored_def world3_def image1_ready_def image1_def
      instance1_def instance2_def instance3_def)

text \<open>
  C1. In an environment where no call fails, with the Instance identifiers distinct,
  Destroy of an existing Image by the upload principal answers 204 and has destroyed
  exactly the Instances whose \<open>image_id\<close> is the target: one Executor destroy and one Store
  delete for each, in ascending order of identifier, and after them one Executor destroy
  and one Store delete for the Image. Afterwards no Instance record references the Image,
  no Image record is kept under its identifier, and the Instances of other Images are as
  they were.
\<close>

theorem Destroy_by_upload_principal:
  assumes "\<forall>c. store_err e c = None" and "\<forall>c. exec_err e c = None"
    and "stored w i = Some img" and "distinct (map Instance_ID (instance_rows w))"
  shows "resp_code (fst (Images_Destroy e (Some Upload) i w)) = StatusNoContent
       \<and> instance_rows (snd (Images_Destroy e (Some Upload) i w))
           = filter (\<lambda>x. Instance_ImageID x \<noteq> i) (instance_rows w)
       \<and> image_rows (snd (Images_Destroy e (Some Upload) i w))
           = filter (\<lambda>r. ID r \<noteq> i) (image_rows w)
       \<and> stored (snd (Images_Destroy e (Some Upload) i w)) i = None
       \<and> effects (snd (Images_Destroy e (Some Upload) i w))
           = effects w @ destroy_effects (dependents i (instance_rows w))
               @ [Exec (DestroyImage i), Store (ImgDestroy img)]
       \<and> sorted (map Instance_ID (dependents i (instance_rows w)))
       \<and> set (dependents i (instance_rows w))
           = {x \<in> set (instance_rows w). Instance_ImageID x = i}
       \<and> length (dependents i (instance_rows w))
           = length (filter (\<lambda>x. Instance_ImageID x = i) (instance_rows w))"
proof -
  let ?deps = "dependents i (instance_rows w)"
  let ?w1 = "w\<lparr>instance_rows := filter (\<lambda>x. Instance_ImageID x \<noteq> i) (instance_rows w),
               effects := effects w @ destroy_effects ?deps\<rparr>"
  let ?w2 = "(issue (Store (ImgDestroy img)) (issue (Exec (DestroyImage i)) ?w1))
               \<lparr>image_rows := filter (\<lambda>r. ID r \<noteq> i) (image_rows ?w1)\<rparr>"
  have idi: "ID img = i" using assms(3) by (rule stored_ID)
  have g: "ImageStore_Get e i w = Inr img" using assms(1,3) by (simp add: Get_stored)
  have l: "InstanceStore_List e w = Inr (instance_rows w)"
    using assms(1) by (simp add: InstanceStore_List_def)
  have sub: "set ?deps \<subseteq> set (instance_rows w)" by (auto simp: dependents_facts(1))
  have c: "cascade e ?deps w = (None, ?w1)"
    using cascade_ok[OF assms(1,2,4) sub dependents_facts(4)[OF assms(4)]]
    by (simp add: filter_dependents[OF assms(4)])
  have s1: "stored ?w1 i = Some img" using assms(3) by (simp add: stored_def)
  have n1: "\<not> (\<exists>inst \<in> set (instance_rows ?w1). Instance_ImageID inst = i)" by simp
  have d: "Image_Destroy e i ?w1 = (None, ?w2)"
    using assms(1,2) by (intro Image_Destroy_ok[OF _ s1 n1]) simp_all
  have R: "Images_Destroy e (Some Upload) i w = (WriteHeader StatusNoContent NewRecorder, ?w2)"
    by (simp add: Images_Destroy_def g l idi c d)
  show ?thesis
    unfolding R
    by (simp add: resp_code_WriteHeader issue_simps stored_def find_filter_other dependents_facts)
qed

theorem Destroy_by_upload_principal_witness:
  "stored world3 1 = Some image1_ready
   \<and> instance_rows world3 = [instance3, instance2, instance1]
   \<and> resp_code (fst (Images_Destroy env_ok (Some Upload) 1 world3)) = StatusNoContent
   \<and> instance_rows (snd (Images_Destroy env_ok (Some Upload) 1 world3)) = [instance2]
   \<and> image_rows (snd (Images_Destroy env_ok (Some Upload) 1 world3)) = []
   \<and> effects (snd (Images_Destroy env_ok (Some Upload) 1 world3))
       = [Exec (DestroyInstance 1), Store (InstDestroy instance1),
          Exec (DestroyInstance 3), Store (InstDestroy instance3),
          Exec (DestroyImage 1), Store (ImgDestroy image1_ready)]"
proof -
  have f: "\<forall>c. store_err env_ok c = None" "\<forall>c. exec_err env_ok c = None"
    by (simp_all add: env_ok_def)
  note T = Destroy_by_upload_principal[OF f world3_facts(1,2)]
  have A: "resp_code (fst (Images_Destroy env_ok (Some Upload) 1 world3)) = StatusNoContent"
    using T by blast
  have B: "instance_rows (snd (Images_Destroy env_ok (Some Upload) 1 world3)) = [instance2]"
    using T by (simp add: world3_facts(3) instance1_def instance2_def instance3_def)
  have C: "image_rows (snd (Images_Destroy env_ok (Some Upload) 1 world3)) = []"
    using T by (simp add: world3_facts(4) image1_ready_def image1_def)
  have D: "effects (snd (Images_Destroy env_ok (Some Upload) 1 world3))
       = [Exec (DestroyInstance 1), Store (InstDestroy instance1),
          Exec (DestroyInstance 3), Store (InstDestroy instance3),
          Exec (DestroyImage 1), Store (ImgDestroy image1_ready)]"
    using T unfolding dependents_world3 world3_facts(5)
    by (simp add: destroy_effects_def instance1_def instance3_def)
  from world3_facts(1,3) A B C D show ?thesis by blast
qed

lemma Image_Destroy_effects:
  assumes "ImageStore_Get e i w = Inr img" and "Image_Destroy e i w = (r, w')"
  shows "effects w' = effects w @ [] \<or> effects w' = effects w @ [Exec (DestroyImage (ID img))]
       \<or> effects w' = effects w @ [Exec (DestroyImage (ID img)), Store (ImgDestroy img)]"
  using assms
  by (auto simp: Image_Destroy_def Executor_call_def ImageStore_Destroy_def Let_def issue_def
      split: if_splits option.splits)

lemma Images_Destroy_upload:
  assumes "ImageStore_Get e i w = Inr img" and "store_err e InstList = None"
    and "cascade e (dependents (ID img) (instance_rows w)) w = (r, w1)"
  shows "Images_Destroy e (Some Upload) i w =
           (case r of
              Some f \<Rightarrow> (render e f, w1)
            | None \<Rightarrow>
                (case Image_Destroy e (ID img) w1 of
                   (Some f, w2) \<Rightarrow> (render e f, w2)
                 | (None, w2) \<Rightarrow> (WriteHeader StatusNoContent NewRecorder, w2)))"
  using assms by (simp add: Images_Destroy_def InstanceStore_List_def split: option.splits)

lemma upload_effects_order:
  assumes "store_err e (ImgGet i) = None" and "stored w i = Some img"
    and "store_err e InstList = None"
  shows "\<exists>pre post. effects (snd (Images_Destroy e (Some Upload) i w)) = effects w @ pre @ post
           \<and> list_all instance_effect pre
           \<and> (post = [] \<or> post = [Exec (DestroyImage i)]
              \<or> post = [Exec (DestroyImage i), Store (ImgDestroy img)])"
proof -
  have idi: "ID img = i" using assms(2) by (rule stored_ID)
  have g: "ImageStore_Get e i w = Inr img" using assms(1,2) by (rule Get_stored)
  obtain r w1 where c: "cascade e (dependents (ID img) (instance_rows w)) w = (r, w1)"
    by (cases "cascade e (dependents (ID img) (instance_rows w)) w")
  note R = Images_Destroy_upload[OF g assms(3) c]
  from cascade_step[OF c] obtain pre where
    pre: "effects w1 = effects w @ pre" "list_all instance_effect pre"
    and im: "image_rows w1 = image_rows w"
    unfolding instances_step_def by blast
  show ?thesis
  proof (cases r)
    case (Some f)
    then have "effects (snd (Images_Destroy e (Some Upload) i w)) = effects w @ pre @ []"
      unfolding R using pre(1) by simp
    with pre(2) show ?thesis by blast
  next
    case None
    obtain r2 w2 where d: "Image_Destroy e i w1 = (r2, w2)" by (cases "Image_Destroy e i w1")
    have g1: "ImageStore_Get e i w1 = Inr img"
      using assms(1,2) im by (simp add: ImageStore_Get_def stored_def)
    have s: "snd (Images_Destroy e (Some Upload) i w) = w2"
      unfolding R using None d idi by (simp split: option.splits)
    from Image_Destroy_effects[OF g1 d] idi pre(1)
    have "effects w2 = effects w @ pre @ [] \<or> effects w2 = effects w @ pre @ [Exec (DestroyImage i)]
        \<or> effects w2 = effects w @ pre @ [Exec (DestroyImage i), Store (ImgDestroy img)]"
      by auto
    with pre(2) show ?thesis unfolding s by blast
  qed
qed

lemma upload_abort:
  assumes "store_err e (ImgGet i) = None" and "stored w i = Some img"
    and "store_err e InstList = None"
    and "distinct (map Instance_ID (instance_rows w))"
    and "dependents i (instance_rows w) = pre @ x # post"
    and "\<forall>y \<in> set pre. \<not> destroy_fails e y" and "destroy_fails e x"
  shows "Images_Destroy e (Some Upload) i w =
    (render e (StatusInternalServerError, internalServerError),
     w\<lparr>instance_rows :=
          filter (\<lambda>r. Instance_ID r \<notin> Instance_ID ` set pre) (instance_rows w),
       effects := effects w @ destroy_effects pre @ attempt e x\<rparr>)"
proof -
  let ?w1 = "w\<lparr>instance_rows :=
                 filter (\<lambda>r. Instance_ID r \<notin> Instance_ID ` set pre) (instance_rows w),
               effects := effects w @ destroy_effects pre\<rparr>"
  have idi: "ID img = i" using assms(2) by (rule stored_ID)
  have g: "ImageStore_Get e i w = Inr img" using assms(1,2) by (rule Get_stored)
  have sub: "set (pre @ x # post) \<subseteq> set (instance_rows w)"
    using dependents_facts(1)[of i "instance_rows w"] unfolding assms(5) by auto
  have dis: "distinct (map Instance_ID (pre @ x # post))"
    using dependents_facts(4)[OF assms(4), of i] unfolding assms(5) .
  have p: "cascade e (pre @ x # post) w = cascade e (x # post) ?w1"
    using sub dis by (intro cascade_prefix[OF assms(6,4)]) auto
  have d1: "distinct (map Instance_ID (instance_rows ?w1))"
    using assms(4) by (simp add: distinct_map_filter)
  have x1: "x \<in> set (instance_rows ?w1)"
    using sub dis by (auto simp: image_iff)
  note a = Instance_Destroy_attempt[OF d1 x1 assms(7)]
  have c: "cascade e (dependents (ID img) (instance_rows w)) w =
      (Some (StatusInternalServerError, internalServerError),
       ?w1\<lparr>effects := effects ?w1 @ attempt e x\<rparr>)"
    unfolding idi assms(5) p
    by (rule cascade_stop[OF a]) (simp add: StatusInternalServerError_def StatusNotFound_def)
  show ?thesis
    using Images_Destroy_upload[OF g assms(3) c] by simp
qed

lemma first_failure:
  assumes "\<exists>y \<in> set xs. destroy_fails e y"
  shows "\<exists>pre x post. xs = pre @ x # post \<and> (\<forall>y \<in> set pre. \<not> destroy_fails e y)
           \<and> destroy_fails e x"
  using split_list_first_prop[OF assms] by blast

text \<open>
  C7. For an existing Image and the upload principal, with the lookup of the Image and
  the listing of the Instances working:
  \<^item> whatever fails, the effects of the request are destroys of Instances first and only
    after them, if at all, the Executor's destroy of the Image and the Store's delete;
  \<^item> if the destroy of a dependent fails with anything but NotFound (its lookup fails in
    the Store, the Executor fails, or the Store's delete fails) and the dependents before
    it, in ascending order, did not fail, the cascade stops there: the response is
    InternalError, the Image record is kept, exactly the dependents before the failing one
    are gone, the effects are their destroys and the failing attempt and nothing more, so
    the failing Instance, every dependent after it and every Instance of another Image are
    still in the Store, and nothing was asked of the Image;
  \<^item> the Executor's destroy of the Image is issued only if no dependent's destroy failed;
  \<^item> a dependent that is already gone (NotFound) does not stop the cascade.
\<close>

theorem cascade_aborts_on_failure:
  assumes "store_err e (ImgGet i) = None" and "stored w i = Some img"
    and "store_err e InstList = None"
    and "distinct (map Instance_ID (instance_rows w))"
  shows "(\<exists>a b. effects (snd (Images_Destroy e (Some Upload) i w)) = effects w @ a @ b
            \<and> list_all instance_effect a
            \<and> (b = [] \<or> b = [Exec (DestroyImage i)]
               \<or> b = [Exec (DestroyImage i), Store (ImgDestroy img)]))
       \<and> (dependents i (instance_rows w) = pre @ x # post
          \<and> (\<forall>y \<in> set pre. \<not> destroy_fails e y) \<and> destroy_fails e x \<longrightarrow>
            surfaced (fst (Images_Destroy e (Some Upload) i w)) = Some InternalError
          \<and> image_rows (snd (Images_Destroy e (Some Upload) i w)) = image_rows w
          \<and> stored (snd (Images_Destroy e (Some Upload) i w)) i = Some img
          \<and> instance_rows (snd (Images_Destroy e (Some Upload) i w))
              = filter (\<lambda>r. Instance_ID r \<notin> Instance_ID ` set pre) (instance_rows w)
          \<and> effects (snd (Images_Destroy e (Some Upload) i w))
              = effects w @ destroy_effects pre @ attempt e x
          \<and> set (x # post) \<subseteq> set (instance_rows (snd (Images_Destroy e (Some Upload) i w)))
          \<and> (\<forall>y \<in> set (instance_rows w). Instance_ImageID y \<noteq> i \<longrightarrow>
                y \<in> set (instance_rows (snd (Images_Destroy e (Some Upload) i w)))))
       \<and> (Exec (DestroyImage i)
            \<in> set (drop (length (effects w)) (effects (snd (Images_Destroy e (Some Upload) i w))))
          \<longrightarrow> (\<forall>y \<in> set (dependents i (instance_rows w)). \<not> destroy_fails e y))
       \<and> (InstanceStore_Get e (Instance_ID z) v = Absent \<longrightarrow>
            cascade e (z # rest) v = cascade e rest v)"
proof (intro conjI impI)
  show "\<exists>a b. effects (snd (Images_Destroy e (Some Upload) i w)) = effects w @ a @ b
            \<and> list_all instance_effect a
            \<and> (b = [] \<or> b = [Exec (DestroyImage i)]
               \<or> b = [Exec (DestroyImage i), Store (ImgDestroy img)])"
    by (rule upload_effects_order[OF assms(1-3)])
next
  assume h: "dependents i (instance_rows w) = pre @ x # post
          \<and> (\<forall>y \<in> set pre. \<not> destroy_fails e y) \<and> destroy_fails e x"
  then have dp: "dependents i (instance_rows w) = pre @ x # post"
    and ok: "\<forall>y \<in> set pre. \<not> destroy_fails e y" and bad: "destroy_fails e x" by blast+
  note R = upload_abort[OF assms dp ok bad]
  have sub: "set (pre @ x # post) \<subseteq> {r \<in> set (instance_rows w). Instance_ImageID r = i}"
    using dependents_facts(1)[of i "instance_rows w"] unfolding dp by simp
  have dis: "distinct (map Instance_ID (pre @ x # post))"
    using dependents_facts(4)[OF assms(4), of i] unfolding dp .
  show "surfaced (fst (Images_Destroy e (Some Upload) i w)) = Some InternalError"
    unfolding R by (simp add: surfaced_InternalError resp_code_render)
  show "image_rows (snd (Images_Destroy e (Some Upload) i w)) = image_rows w"
    unfolding R by simp
  show "stored (snd (Images_Destroy e (Some Upload) i w)) i = Some img"
    unfolding R using assms(2) by (simp add: stored_def)
  show "instance_rows (snd (Images_Destroy e (Some Upload) i w))
              = filter (\<lambda>r. Instance_ID r \<notin> Instance_ID ` set pre) (instance_rows w)"
    unfolding R by simp
  show "effects (snd (Images_Destroy e (Some Upload) i w))
              = effects w @ destroy_effects pre @ attempt e x"
    unfolding R by simp
  show "set (x # post) \<subseteq> set (instance_rows (snd (Images_Destroy e (Some Upload) i w)))"
    unfolding R using sub dis by (auto simp: image_iff)
  show "\<forall>y \<in> set (instance_rows w). Instance_ImageID y \<noteq> i \<longrightarrow>
                y \<in> set (instance_rows (snd (Images_Destroy e (Some Upload) i w)))"
  proof (intro ballI impI)
    fix y assume y: "y \<in> set (instance_rows w)" "Instance_ImageID y \<noteq> i"
    have "Instance_ID y \<notin> Instance_ID ` set pre"
    proof
      assume "Instance_ID y \<in> Instance_ID ` set pre"
      then obtain d where d: "d \<in> set pre" "Instance_ID y = Instance_ID d" by auto
      with sub have d': "d \<in> set (instance_rows w)" "Instance_ImageID d = i" by auto
      from assms(4) y(1) d'(1) d(2) have "y = d" by (auto simp: distinct_map inj_on_def)
      with d'(2) y(2) show False by simp
    qed
    with y(1) show "y \<in> set (instance_rows (snd (Images_Destroy e (Some Upload) i w)))"
      unfolding R by simp
  qed
next
  assume h: "Exec (DestroyImage i)
            \<in> set (drop (length (effects w)) (effects (snd (Images_Destroy e (Some Upload) i w))))"
  show "\<forall>y \<in> set (dependents i (instance_rows w)). \<not> destroy_fails e y"
  proof (rule ccontr)
    assume "\<not> (\<forall>y \<in> set (dependents i (instance_rows w)). \<not> destroy_fails e y)"
    then have "\<exists>y \<in> set (dependents i (instance_rows w)). destroy_fails e y" by blast
    from first_failure[OF this] obtain p1 x1 p2 where
      dp: "dependents i (instance_rows w) = p1 @ x1 # p2"
      and ok: "\<forall>y \<in> set p1. \<not> destroy_fails e y" and bad: "destroy_fails e x1" by blast
    note R = upload_abort[OF assms dp ok bad]
    from h have "Exec (DestroyImage i) \<in> set (destroy_effects p1 @ attempt e x1)"
      unfolding R by simp
    moreover have "list_all instance_effect (destroy_effects p1 @ attempt e x1)"
      by (simp add: instance_effect_lists)
    ultimately have "instance_effect (Exec (DestroyImage i))"
      unfolding list_all_iff by blast
    then show False by (simp add: instance_effect_def)
  qed
next
  assume "InstanceStore_Get e (Instance_ID z) v = Absent"
  then have "Instance_Destroy e (Instance_ID z) v = (Some (StatusNotFound, notFoundError), v)"
    by (simp add: Instance_Destroy_def)
  then show "cascade e (z # rest) v = cascade e rest v"
    by (rule cascade_continue) simp
qed

theorem cascade_aborts_on_failure_witness:
  "stored world3 1 = Some image1_ready
   \<and> dependents 1 (instance_rows world3) = [] @ instance1 # [instance3]
   \<and> destroy_fails env_instance1_fails instance1
   \<and> surfaced (fst (Images_Destroy env_instance1_fails (Some Upload) 1 world3)) = Some InternalError
   \<and> image_rows (snd (Images_Destroy env_instance1_fails (Some Upload) 1 world3)) = [image1_ready]
   \<and> instance_rows (snd (Images_Destroy env_instance1_fails (Some Upload) 1 world3))
       = [instance3, instance2, instance1]
   \<and> effects (snd (Images_Destroy env_instance1_fails (Some Upload) 1 world3))
       = [Exec (DestroyInstance 1)]
   \<and> destroy_fails env_lookup1_fails instance1
   \<and> surfaced (fst (Images_Destroy env_lookup1_fails (Some Upload) 1 world3)) = Some InternalError
   \<and> instance_rows (snd (Images_Destroy env_lookup1_fails (Some Upload) 1 world3))
       = [instance3, instance2, instance1]
   \<and> effects (snd (Images_Destroy env_lookup1_fails (Some Upload) 1 world3)) = []
   \<and> dependents 1 (instance_rows world3) = [instance1] @ instance3 # []
   \<and> \<not> destroy_fails env_instance3_fails instance1
   \<and> destroy_fails env_instance3_fails instance3
   \<and> instance_rows (snd (Images_Destroy env_instance3_fails (Some Upload) 1 world3))
       = [instance3, instance2]
   \<and> effects (snd (Images_Destroy env_instance3_fails (Some Upload) 1 world3))
       = [Exec (DestroyInstance 1), Store (InstDestroy instance1), Exec (DestroyInstance 3)]"
proof -
  have d1: "dependents 1 (instance_rows world3) = [] @ instance1 # [instance3]"
    and d3: "dependents 1 (instance_rows world3) = [instance1] @ instance3 # []"
    by (simp_all add: dependents_world3)
  have g1: "store_err env_instance1_fails (ImgGet 1) = None"
    "store_err env_instance1_fails InstList = None"
    and g2: "store_err env_lookup1_fails (ImgGet 1) = None"
    "store_err env_lookup1_fails InstList = None"
    and g3: "store_err env_instance3_fails (ImgGet 1) = None"
    "store_err env_instance3_fails InstList = None"
    by (simp_all add: env_instance1_fails_def env_lookup1_fails_def env_instance3_fails_def
        env_ok_def)
  have f1: "destroy_fails env_instance1_fails instance1"
    and f2: "destroy_fails env_lookup1_fails instance1"
    and f3: "\<not> destroy_fails env_instance3_fails instance1"
      "destroy_fails env_instance3_fails instance3"
    by (simp_all add: destroy_fails_def env_instance1_fails_def env_lookup1_fails_def
        env_instance3_fails_def env_ok_def instance1_def instance3_def)
  have p0: "\<forall>y \<in> set []. \<not> destroy_fails e y" for e by simp
  have p3: "\<forall>y \<in> set [instance1]. \<not> destroy_fails env_instance3_fails y" using f3(1) by simp
  note T1 = cascade_aborts_on_failure[OF g1(1) world3_facts(1) g1(2) world3_facts(2),
      where pre = "[]" and x = instance1 and post = "[instance3]",
      THEN conjunct2, THEN conjunct1, rule_format, OF conjI[OF d1 conjI[OF p0 f1]]]
  note T2 = cascade_aborts_on_failure[OF g2(1) world3_facts(1) g2(2) world3_facts(2),
      where pre = "[]" and x = instance1 and post = "[instance3]",
      THEN conjunct2, THEN conjunct1, rule_format, OF conjI[OF d1 conjI[OF p0 f2]]]
  note T3 = cascade_aborts_on_failure[OF g3(1) world3_facts(1) g3(2) world3_facts(2),
      where pre = "[instance1]" and x = instance3 and post = "[]",
      THEN conjunct2, THEN conjunct1, rule_format, OF conjI[OF d3 conjI[OF p3 f3(2)]]]
  have A: "surfaced (fst (Images_Destroy env_instance1_fails (Some Upload) 1 world3))
             = Some InternalError"
    "image_rows (snd (Images_Destroy env_instance1_fails (Some Upload) 1 world3)) = [image1_ready]"
    "instance_rows (snd (Images_Destroy env_instance1_fails (Some Upload) 1 world3))
       = [instance3, instance2, instance1]"
    "effects (snd (Images_Destroy env_instance1_fails (Some Upload) 1 world3))
       = [Exec (DestroyInstance 1)]"
    using T1
    by (simp_all add: world3_facts destroy_effects_def attempt_def env_instance1_fails_def
        env_ok_def instance1_def)
  have B: "surfaced (fst (Images_Destroy env_lookup1_fails (Some Upload) 1 world3))
             = Some InternalError"
    "instance_rows (snd (Images_Destroy env_lookup1_fails (Some Upload) 1 world3))
       = [instance3, instance2, instance1]"
    "effects (snd (Images_Destroy env_lookup1_fails (Some Upload) 1 world3)) = []"
    using T2
    by (simp_all add: world3_facts destroy_effects_def attempt_def env_lookup1_fails_def
        env_ok_def instance1_def)
  have C: "instance_rows (snd (Images_Destroy env_instance3_fails (Some Upload) 1 world3))
       = [instance3, instance2]"
    "effects (snd (Images_Destroy env_instance3_fails (Some Upload) 1 world3))
       = [Exec (DestroyInstance 1), Store (InstDestroy instance1), Exec (DestroyInstance 3)]"
    using T3
    by (simp_all add: world3_facts destroy_effects_def attempt_def env_instance3_fails_def
        env_ok_def instance1_def instance2_def instance3_def)
  from world3_facts(1) d1 f1 A f2 B d3 f3 C show ?thesis by blast
qed

section \<open>Monotonicity of ready\<close>

lemma no_flip_same: "image_rows w' = image_rows w \<Longrightarrow> image_seq w' = image_seq w \<Longrightarrow> no_flip w w'"
  by (simp add: no_flip_def)

lemma instances_step_no_flip: "instances_step w w' \<Longrightarrow> no_flip w w'"
  by (simp add: instances_step_def no_flip_def)

lemma Images_List_world: "snd (Images_List e w) = w"
  by (simp add: Images_List_def Encode_def split: sum.splits)

lemma Images_Get_world: "snd (Images_Get e auth i w) = w"
  by (simp add: Images_Get_def split: option.splits sum.splits)

lemma Instances_List_world: "snd (Instances_List e auth w) = w"
  by (simp add: Instances_List_def split: option.splits sum.splits)

lemma Instances_Get_world: "snd (Instances_Get e auth i w) = w"
  by (simp add: Instances_Get_def split: option.splits lookup.splits)

lemma Images_Create_no_flip: "no_flip w (snd (Images_Create e body w))"
proof (cases body)
  case (Inl err)
  then show ?thesis by (simp add: Images_Create_def no_flip_def)
next
  case (Inr req)
  show ?thesis
  proof (cases "store_err e (ImgCreate (NewImage (req_BackedUpAt req)))")
    case (Some msg)
    then show ?thesis
      using Inr by (simp add: Images_Create_def ImageStore_Create_fails no_flip_def issue_simps)
  next
    case None
    let ?row = "(NewImage (req_BackedUpAt req))
                   \<lparr>ID := image_seq w, CreatedAt := now e, UpdatedAt := now e\<rparr>"
    have "image_rows (snd (Images_Create e body w)) = image_rows w @ [?row]
        \<and> image_seq (snd (Images_Create e body w)) = image_seq w + 1"
      using Inr None
      by (simp add: Images_Create_def ImageStore_Create_ok Executor_call_def Encode_def
          issue_def split: option.splits)
    moreover have "ID ?row = image_seq w" by simp
    ultimately show ?thesis unfolding no_flip_def by blast
  qed
qed

lemma Instances_Create_no_flip: "no_flip w (snd (Instances_Create e auth i w))"
  by (rule no_flip_same)
    (simp_all add: Instances_Create_def Executor_call_def InstanceStore_Create_def Let_def
      issue_def split: option.splits sum.splits)

lemma Instances_Destroy_no_flip: "no_flip w (snd (Instances_Destroy e auth i w))"
proof (cases auth)
  case None
  then show ?thesis by (simp add: Instances_Destroy_def no_flip_def)
next
  case (Some p)
  obtain r w1 where d: "Instance_Destroy e i w = (r, w1)" by (cases "Instance_Destroy e i w")
  from Instance_Destroy_step[OF d] have "no_flip w w1" by (simp add: instances_step_no_flip)
  with Some d show ?thesis by (simp add: Instances_Destroy_def split: option.splits)
qed

lemma Image_Destroy_no_flip:
  assumes "Image_Destroy e i w = (r, w')"
  shows "no_flip w w'"
  using assms
  by (auto simp: Image_Destroy_def Executor_call_def ImageStore_Destroy_def Let_def issue_def
      no_flip_def split: sum.splits if_splits option.splits)

lemma no_flip_after_instances:
  "instances_step w w1 \<Longrightarrow> no_flip w1 w2 \<Longrightarrow> no_flip w w2"
  by (simp add: instances_step_def no_flip_def)

lemma Images_Destroy_no_flip: "no_flip w (snd (Images_Destroy e auth i w))"
proof (cases auth)
  case None
  then show ?thesis by (simp add: Images_Destroy_def no_flip_def)
next
  case (Some p)
  show ?thesis
  proof (cases "ImageStore_Get e i w")
    case (Inl err)
    with Some show ?thesis by (simp add: Images_Destroy_def no_flip_def)
  next
    case (Inr img)
    define c where "c = (if p = Upload
                      then (case InstanceStore_List e w of
                              Inl err \<Rightarrow>
                                (Some (StatusInternalServerError, internalServerError), w)
                            | Inr instances \<Rightarrow> cascade e (dependents (ID img) instances) w)
                      else (None, w))"
    obtain r w1 where c: "c = (r, w1)" by (cases c)
    have s1: "instances_step w w1"
      using c unfolding c_def
      by (auto simp: instances_step_refl cascade_step split: if_splits sum.splits)
    have R: "Images_Destroy e auth i w =
       (case r of Some f \<Rightarrow> (render e f, w1)
        | None \<Rightarrow> (case Image_Destroy e (ID img) w1 of
                       (Some f, w2) \<Rightarrow> (render e f, w2)
                     | (None, w2) \<Rightarrow> (WriteHeader StatusNoContent NewRecorder, w2)))"
      using Some Inr c unfolding c_def by (simp add: Images_Destroy_def)
    show ?thesis
    proof (cases r)
      case (Some f)
      with R s1 show ?thesis by (simp add: instances_step_no_flip)
    next
      case None
      obtain r2 w2 where d: "Image_Destroy e (ID img) w1 = (r2, w2)"
        by (cases "Image_Destroy e (ID img) w1")
      have "snd (Images_Destroy e auth i w) = w2"
        unfolding R using None d by (simp split: option.splits)
      with no_flip_after_instances[OF s1 Image_Destroy_no_flip[OF d]] show ?thesis by simp
    qed
  qed
qed

lemma Images_Done_step:
  "image_seq (snd (Images_Done e idvar w)) = image_seq w
   \<and> (image_rows (snd (Images_Done e idvar w)) = image_rows w
      \<or> (\<exists>j t. image_rows (snd (Images_Done e idvar w)) = mark_rows j t (image_rows w)))"
  by (auto simp: Images_Done_def ImageStore_MarkAsReady_def Executor_call_def Encode_def Let_def
      issue_def log_Print_def split: option.splits sum.splits)

lemma serve_no_flip: "\<not> is_Done rq \<Longrightarrow> no_flip w (snd (serve e rq w))"
  by (cases rq)
    (simp_all add: is_Done_def Images_List_world Images_Get_world Instances_List_world
      Instances_Get_world Images_Create_no_flip Images_Destroy_no_flip
      Instances_Create_no_flip Instances_Destroy_no_flip no_flip_def[of w w])

lemma find_append_some:
  "find P xs = Some r \<Longrightarrow> find P (xs @ ys) = Some r"
  by (induction xs) (auto split: if_splits)

lemma find_append_none:
  "find P xs = None \<Longrightarrow> find P (xs @ ys) = find P ys"
  by (induction xs) (auto split: if_splits)

lemma find_filter_keep:
  "j \<noteq> i \<Longrightarrow> find (\<lambda>r. ID r = i) (filter (\<lambda>r. ID r \<noteq> j) rows) = find (\<lambda>r. ID r = i) rows"
  by (induction rows) auto

lemma find_mark_other:
  "j \<noteq> i \<Longrightarrow> find (\<lambda>r. ID r = i) (mark_rows j t rows) = find (\<lambda>r. ID r = i) rows"
  unfolding mark_rows_def by (induction rows) auto

lemma find_mark_none:
  "find (\<lambda>r. ID r = i) rows = None \<Longrightarrow> find (\<lambda>r. ID r = i) (mark_rows j t rows) = None"
  unfolding mark_rows_def by (induction rows) (auto split: if_splits)

lemma stored_no_flip:
  assumes "no_flip w w'" and "stored w i = Some r"
  shows "stored w' i = Some r \<or> stored w' i = None"
proof -
  have f: "find (\<lambda>r. ID r = i) (image_rows w) = Some r" using assms(2) by (simp add: stored_def)
  from assms(1) consider
    (same) "image_rows w' = image_rows w"
    | (app) row where "image_rows w' = image_rows w @ [row]"
    | (del) j where "image_rows w' = filter (\<lambda>r. ID r \<noteq> j) (image_rows w)"
    unfolding no_flip_def by blast
  then show ?thesis
  proof cases
    case same
    with f show ?thesis by (simp add: stored_def)
  next
    case app
    with find_append_some[OF f] show ?thesis by (simp add: stored_def)
  next
    case del
    show ?thesis
    proof (cases "j = i")
      case True
      with del show ?thesis by (simp add: stored_def find_filter_other)
    next
      case False
      with del f show ?thesis by (simp add: stored_def find_filter_keep)
    qed
  qed
qed

lemma absent_no_flip:
  assumes "no_flip w w'" and "stored w i = None" and "i < image_seq w"
  shows "stored w' i = None"
proof -
  have f: "find (\<lambda>r. ID r = i) (image_rows w) = None" using assms(2) by (simp add: stored_def)
  from assms(1) consider
    (same) "image_rows w' = image_rows w"
    | (app) row where "image_rows w' = image_rows w @ [row]" "ID row = image_seq w"
    | (del) j where "image_rows w' = filter (\<lambda>r. ID r \<noteq> j) (image_rows w)"
    unfolding no_flip_def by blast
  then show ?thesis
  proof cases
    case same
    with f show ?thesis by (simp add: stored_def)
  next
    case app
    with find_append_none[OF f] assms(3) show ?thesis by (simp add: stored_def)
  next
    case del
    show ?thesis
    proof (cases "j = i")
      case True
      with del show ?thesis by (simp add: stored_def find_filter_other)
    next
      case False
      with del f show ?thesis by (simp add: stored_def find_filter_keep)
    qed
  qed
qed

lemma seq_no_flip: "no_flip w w' \<Longrightarrow> image_seq w \<le> image_seq w'"
  unfolding no_flip_def by auto

lemma stored_Done:
  assumes "stored w i = Some r"
  shows "stored (snd (Images_Done e idvar w)) i = Some r
       \<or> (\<exists>t. stored (snd (Images_Done e idvar w)) i = Some (r\<lparr>Ready := True, UpdatedAt := t\<rparr>))"
proof -
  have f: "find (\<lambda>r. ID r = i) (image_rows w) = Some r" using assms by (simp add: stored_def)
  from Images_Done_step[of e idvar w] consider
    (same) "image_rows (snd (Images_Done e idvar w)) = image_rows w"
    | (mark) j t where "image_rows (snd (Images_Done e idvar w)) = mark_rows j t (image_rows w)"
    by blast
  then show ?thesis
  proof cases
    case same
    with f show ?thesis by (simp add: stored_def)
  next
    case mark
    show ?thesis
    proof (cases "j = i")
      case True
      with mark find_mark_rows[OF f] show ?thesis by (auto simp: stored_def)
    next
      case False
      with mark f show ?thesis by (simp add: stored_def find_mark_other)
    qed
  qed
qed

lemma absent_Done:
  assumes "stored w i = None"
  shows "stored (snd (Images_Done e idvar w)) i = None"
proof -
  have f: "find (\<lambda>r. ID r = i) (image_rows w) = None" using assms by (simp add: stored_def)
  from Images_Done_step[of e idvar w] f show ?thesis
    by (auto simp: stored_def find_mark_none)
qed

lemma serve_ready_or_gone:
  assumes "ready_or_gone i w"
  shows "ready_or_gone i (snd (serve e rq w))"
proof (cases "is_Done rq")
  case True
  then obtain idvar where rq: "rq = ReqImagesDone idvar"
    by (cases rq) (simp_all add: is_Done_def)
  have seq: "image_seq (snd (Images_Done e idvar w)) = image_seq w"
    using Images_Done_step by blast
  show ?thesis
  proof (cases "stored w i")
    case None
    from absent_Done[OF None] assms seq rq show ?thesis by (simp add: ready_or_gone_def)
  next
    case (Some r)
    with assms have "Ready r" by (simp add: ready_or_gone_def)
    with stored_Done[OF Some, of e idvar] assms seq rq show ?thesis
      by (auto simp: ready_or_gone_def)
  qed
next
  case False
  note nf = serve_no_flip[OF False, of w e]
  have seq: "i < image_seq (snd (serve e rq w))"
    using seq_no_flip[OF nf] assms by (simp add: ready_or_gone_def)
  show ?thesis
  proof (cases "stored w i")
    case None
    from absent_no_flip[OF nf None] assms seq show ?thesis by (simp add: ready_or_gone_def)
  next
    case (Some r)
    with assms have "Ready r" by (simp add: ready_or_gone_def)
    with stored_no_flip[OF nf Some] seq show ?thesis by (auto simp: ready_or_gone_def)
  qed
qed

lemma run_ready_or_gone: "ready_or_gone i w \<Longrightarrow> ready_or_gone i (run rs w)"
proof (induction rs arbitrary: w)
  case Nil
  then show ?case by simp
next
  case (Cons a rs)
  obtain e rq where a: "a = (e, rq)" by (cases a)
  from Cons.IH[OF serve_ready_or_gone[OF Cons.prems, of e rq]] a show ?case by simp
qed

lemma stored_below_seq: "seq_ok w \<Longrightarrow> stored w i = Some r \<Longrightarrow> i < image_seq w"
proof -
  assume a: "seq_ok w" "stored w i = Some r"
  have "find P rows = Some r \<Longrightarrow> r \<in> set rows" for P and rows :: "Image list"
    by (induction rows) (auto split: if_splits)
  with a(2) have "r \<in> set (image_rows w)" by (simp add: stored_def)
  with a(1) have "ID r < image_seq w" by (simp add: seq_ok_def list_all_iff)
  with stored_ID[OF a(2)] show ?thesis by simp
qed

text \<open>
  C2. In a world whose Image identifiers lie below the Store's sequence, an Image that is
  ready is never found unready again, whatever requests are served after, in whatever
  environments: under its identifier the Store keeps a ready record, or none. And in
  one request the \<open>ready\<close> of a kept record changes only from false to true, and only
  when the request is Finalise.
\<close>

theorem ready_is_monotone:
  "(seq_ok w \<and> stored w i = Some img \<and> Ready img \<longrightarrow>
      (case stored (run rs w) i of None \<Rightarrow> True | Some r \<Rightarrow> Ready r))
   \<and> (stored w i = Some img \<and> stored (snd (serve e rq w)) i = Some img'
      \<and> Ready img' \<noteq> Ready img \<longrightarrow>
        \<not> Ready img \<and> Ready img' \<and> is_Done rq)"
proof (intro conjI impI)
  assume h: "seq_ok w \<and> stored w i = Some img \<and> Ready img"
  then have "ready_or_gone i w"
    using stored_below_seq[of w i img] by (simp add: ready_or_gone_def)
  from run_ready_or_gone[OF this, of rs]
  show "case stored (run rs w) i of None \<Rightarrow> True | Some r \<Rightarrow> Ready r"
    by (simp add: ready_or_gone_def)
next
  assume h: "stored w i = Some img \<and> stored (snd (serve e rq w)) i = Some img'
      \<and> Ready img' \<noteq> Ready img"
  then have s: "stored w i = Some img" and s': "stored (snd (serve e rq w)) i = Some img'"
    and ne: "Ready img' \<noteq> Ready img" by simp_all
  have d: "is_Done rq"
  proof (rule ccontr)
    assume "\<not> is_Done rq"
    from stored_no_flip[OF serve_no_flip[OF this] s, of e] s' ne show False by auto
  qed
  then obtain idvar where rq: "rq = ReqImagesDone idvar"
    by (cases rq) (simp_all add: is_Done_def)
  from stored_Done[OF s, of e idvar] s' ne rq have "Ready img'" by auto
  with ne d show "\<not> Ready img" "Ready img'" "is_Done rq" by simp_all
qed

theorem ready_is_monotone_witness:
  "seq_ok world1_ready \<and> stored world1_ready 1 = Some image1_ready \<and> Ready image1_ready
   \<and> stored (run run1 world1_ready) 1 = Some image1_ready
   \<and> (case stored (run run1 world1_ready) 1 of None \<Rightarrow> True | Some r \<Rightarrow> Ready r)
   \<and> stored world1 1 = Some image1 \<and> \<not> Ready image1
   \<and> stored (snd (serve env_ok (ReqImagesDone ''1'') world1)) 1
       = Some (image1\<lparr>Ready := True, UpdatedAt := timestamp\<rparr>)
   \<and> is_Done (ReqImagesDone ''1'')"
proof -
  have q: "seq_ok world1_ready"
    by (simp add: seq_ok_def world1_ready_def world1_def image1_ready_def image1_def)
  have s: "stored world1_ready 1 = Some image1_ready" and r: "Ready image1_ready"
    by (simp_all add: eval_defs)
  have ev: "stored (run run1 world1_ready) 1 = Some image1_ready"
    by (simp add: run1_def eval_defs)
  have s1: "stored world1 1 = Some image1" and r1: "\<not> Ready image1"
    by (simp_all add: eval_defs)
  have ev1: "stored (snd (serve env_ok (ReqImagesDone ''1'') world1)) 1
       = Some (image1\<lparr>Ready := True, UpdatedAt := timestamp\<rparr>)"
    by (simp add: eval_defs)
  have ne: "Ready (image1\<lparr>Ready := True, UpdatedAt := timestamp\<rparr>) \<noteq> Ready image1"
    using r1 by simp
  note T = ready_is_monotone[where w = world1_ready and i = 1 and img = image1_ready
      and rs = run1, THEN conjunct1, rule_format]
  note U = ready_is_monotone[where w = world1 and i = 1 and img = image1 and e = env_ok
      and rq = "ReqImagesDone ''1''" and img' = "image1\<lparr>Ready := True, UpdatedAt := timestamp\<rparr>",
      THEN conjunct2, rule_format]
  have A: "case stored (run run1 world1_ready) 1 of None \<Rightarrow> True | Some r \<Rightarrow> Ready r"
    using T q s r by blast
  have B: "is_Done (ReqImagesDone ''1'')"
    using U s1 ev1 ne by blast
  from q s r ev A s1 r1 ev1 B show ?thesis by blast
qed

end

